theory Spec2Isabelle
  imports Main "HOL-Library.Sublist"
begin

section \<open>Python strings\<close>

text \<open>
  A Python \<open>str\<close> is a sequence of Unicode code points and \<open>len\<close> counts code points,
  so a string is a list of code point numbers. \<open>S\<close> turns an ASCII literal into such a
  string; the non-ASCII characters of the source are written as their code point numbers.
\<close>

type_synonym codepoint = nat
type_synonym pystr = "codepoint list"

definition S :: "string \<Rightarrow> pystr" where
  "S s = map of_char s"

definition NL :: codepoint where
  "NL = 10"

text \<open>The code points \<open>str.isspace\<close> accepts; \<open>strip\<close> and \<open>rstrip\<close> remove exactly these.\<close>

definition is_space :: "codepoint \<Rightarrow> bool" where
  "is_space c \<longleftrightarrow>
     (9 \<le> c \<and> c \<le> 13) \<or> (28 \<le> c \<and> c \<le> 32) \<or> c = 133 \<or> c = 160 \<or> c = 5760 \<or>
     (8192 \<le> c \<and> c \<le> 8202) \<or> c = 8232 \<or> c = 8233 \<or> c = 8239 \<or> c = 8287 \<or>
     c = 12288"

definition rstrip :: "pystr \<Rightarrow> pystr" where
  "rstrip s = rev (dropWhile is_space (rev s))"

definition strip :: "pystr \<Rightarrow> pystr" where
  "strip s = rstrip (dropWhile is_space s)"

text \<open>
  \<open>s.split(sep)\<close>: cut at the leftmost occurrence of \<open>sep\<close>, go on behind it.
  \<open>acc\<close> holds the piece read so far. (Python refuses an empty separator; the
  program only splits at \<open>"\n\n"\<close>, \<open>"\n"\<close> and \<open>","\<close>.)
\<close>

function split_from :: "'a list \<Rightarrow> 'a list \<Rightarrow> 'a list \<Rightarrow> 'a list list" where
  "split_from sep acc [] = [acc]"
| "split_from sep acc (c # cs) =
     (if sep \<noteq> [] \<and> prefix sep (c # cs)
      then acc # split_from sep [] (drop (length sep) (c # cs))
      else split_from sep (acc @ [c]) cs)"
  by pat_completeness auto
termination
  by (relation "measure (\<lambda>(sep, acc, s). length s)") auto

definition py_split :: "'a list \<Rightarrow> 'a list \<Rightarrow> 'a list list" where
  "py_split sep s = split_from sep [] s"

fun py_join :: "'a list \<Rightarrow> 'a list list \<Rightarrow> 'a list" where
  "py_join sep [] = []"
| "py_join sep [x] = x"
| "py_join sep (x # y # ys) = x @ sep @ py_join sep (y # ys)"

text \<open>
  \<open>str.lower\<close> on the ASCII letters. Code points beyond ASCII are left as they are:
  Unicode case mapping is not part of the model. (The program lower-cases only day labels,
  to look for the ASCII words of \<open>classify_day\<close> in them.)
\<close>

definition py_lower :: "pystr \<Rightarrow> pystr" where
  "py_lower s = map (\<lambda>c. if 65 \<le> c \<and> c \<le> 90 then c + 32 else c) s"

text \<open>\<open>str(n)\<close> of a natural number: its decimal digits.\<close>

fun str_nat :: "nat \<Rightarrow> pystr" where
  "str_nat n = (if n < 10 then [48 + n] else str_nat (n div 10) @ [48 + n mod 10])"

declare str_nat.simps [simp del]

subsection \<open>\<open>urllib.parse.quote_plus\<close>\<close>

text \<open>
  The string is encoded as UTF-8; a byte that is an ASCII letter, a digit or one of
  \<open>_ . - ~\<close> stands for itself, a space becomes \<open>+\<close>, every other byte becomes
  \<open>%XX\<close> in upper-case hexadecimal. (Python raises on a lone surrogate code point;
  strings are taken to hold Unicode scalar values.)
\<close>

definition utf8 :: "codepoint \<Rightarrow> nat list" where
  "utf8 c =
     (if c < 128 then [c]
      else if c < 2048 then [192 + c div 64, 128 + c mod 64]
      else if c < 65536 then [224 + c div 4096, 128 + (c div 64) mod 64, 128 + c mod 64]
      else [240 + c div 262144, 128 + (c div 4096) mod 64, 128 + (c div 64) mod 64,
            128 + c mod 64])"

definition hex_digit :: "nat \<Rightarrow> codepoint" where
  "hex_digit d = (if d < 10 then 48 + d else 55 + d)"

definition always_safe :: "nat \<Rightarrow> bool" where
  "always_safe b \<longleftrightarrow>
     (65 \<le> b \<and> b \<le> 90) \<or> (97 \<le> b \<and> b \<le> 122) \<or> (48 \<le> b \<and> b \<le> 57) \<or>
     b = 95 \<or> b = 46 \<or> b = 45 \<or> b = 126"

definition quote_byte :: "nat \<Rightarrow> pystr" where
  "quote_byte b =
     (if always_safe b then [b]
      else if b = 32 then [43]
      else [37, hex_digit (b div 16), hex_digit (b mod 16)])"

definition quote_plus :: "pystr \<Rightarrow> pystr" where
  "quote_plus s = concat (map quote_byte (concat (map utf8 s)))"

section \<open>The fixed tables\<close>

text \<open>A dictionary literal is an association list with distinct keys, read with \<open>map_of\<close>.\<close>

definition FORM_CUES :: "(pystr \<times> pystr) list" where
  "FORM_CUES =
    [(S ''Seated Cable Rows'', S ''Back straight, squeeze shoulder blades.''),
     (S ''Lat Pulldown'', S ''Chest up; pull bar to upper chest; no swing.''),
     (S ''DB Bent-Over Row'', S ''Hinge hips, neutral spine, pull to waist.''),
     (S ''Dumbbell Bicep Curls'', S ''Elbows tucked; no swing.''),
     (S ''Face Pulls'', S ''Lead with elbows; rope to forehead.''),
     (S ''Dumbbell Shoulder Press'', S ''No back arch; smooth press.''),
     (S ''Dumbbell Bench Press'', S ''Lower to chest; don'' @ [8217] @ S ''t flare elbows.''),
     (S ''Push Up'', S ''Straight line; don'' @ [8217] @ S ''t sag hips.''),
     (S ''Squat'', S ''Chest tall; knees out; hips back.''),
     (S ''Leg Press'', S ''Feet shoulder-width; full control.''),
     (S ''Lunge'', S ''Step forward; knee over ankle.''),
     (S ''Romanian Deadlift'', S ''Soft knees; hinge; hamstring stretch.''),
     (S ''Plank'', S ''Hips level; brace core.''),
     (S ''Side Plank'', S ''Stack shoulders & hips.''),
     (S ''Kettlebell Swings'', S ''Hinge; snap glutes; don'' @ [8217] @ S ''t squat.''),
     (S ''DB Thrusters'', S ''Full squat then press overhead.''),
     (S ''Jump Rope'', S ''Light bounce; upright.'')]"

text \<open>The \<open>sets\<close> of a prescription is a number or a word; an f-string prints either.\<close>

datatype sets_value = Count nat | Word pystr

fun format_sets :: "sets_value \<Rightarrow> pystr" where
  "format_sets (Count n) = str_nat n"
| "format_sets (Word w) = w"

record prescription =
  sets :: sets_value
  reps :: pystr
  rest :: pystr

definition EXERCISE_PRESCRIPTIONS :: "(pystr \<times> prescription) list" where
  "EXERCISE_PRESCRIPTIONS =
    [(S ''Seated Cable Rows'',
        \<lparr>sets = Count 3, reps = S ''10'' @ [8211] @ S ''12'', rest = S ''60'' @ [8211] @ S ''90s''\<rparr>),
     (S ''Lat Pulldown'',
        \<lparr>sets = Count 3, reps = S ''10'' @ [8211] @ S ''12'', rest = S ''60'' @ [8211] @ S ''90s''\<rparr>),
     (S ''DB Bent-Over Row'',
        \<lparr>sets = Count 3, reps = S ''10'' @ [8211] @ S ''12'', rest = S ''60'' @ [8211] @ S ''90s''\<rparr>),
     (S ''Dumbbell Bicep Curls'',
        \<lparr>sets = Count 3, reps = S ''12'' @ [8211] @ S ''15'', rest = S ''45s''\<rparr>),
     (S ''Face Pulls'',
        \<lparr>sets = Count 3, reps = S ''12'' @ [8211] @ S ''15'', rest = S ''45s''\<rparr>),
     (S ''Dumbbell Shoulder Press'',
        \<lparr>sets = Count 3, reps = S ''10'' @ [8211] @ S ''12'', rest = S ''60s''\<rparr>),
     (S ''Dumbbell Bench Press'',
        \<lparr>sets = Count 3, reps = S ''10'' @ [8211] @ S ''12'', rest = S ''60'' @ [8211] @ S ''90s''\<rparr>),
     (S ''Push Up'',
        \<lparr>sets = Count 3, reps = S ''10'' @ [8211] @ S ''15'', rest = S ''45'' @ [8211] @ S ''60s''\<rparr>),
     (S ''Squat'',
        \<lparr>sets = Count 3, reps = S ''10'' @ [8211] @ S ''12'', rest = S ''90s''\<rparr>),
     (S ''Leg Press'',
        \<lparr>sets = Count 3, reps = S ''10'' @ [8211] @ S ''12'', rest = S ''90s''\<rparr>),
     (S ''Lunge'',
        \<lparr>sets = Count 3, reps = S ''10/leg'', rest = S ''60s''\<rparr>),
     (S ''Romanian Deadlift'',
        \<lparr>sets = Count 3, reps = S ''10'' @ [8211] @ S ''12'', rest = S ''90s''\<rparr>),
     (S ''Plank'',
        \<lparr>sets = Count 3, reps = S ''30'' @ [8211] @ S ''45s hold'', rest = S ''30s''\<rparr>),
     (S ''Side Plank'',
        \<lparr>sets = Count 3, reps = S ''20'' @ [8211] @ S ''30s/side'', rest = S ''30s''\<rparr>),
     (S ''Kettlebell Swings'',
        \<lparr>sets = Word (S ''EMOM''), reps = S ''10 reps/min'', rest = S ''balance of min''\<rparr>),
     (S ''DB Thrusters'',
        \<lparr>sets = Word (S ''EMOM''), reps = S ''8 reps/min'', rest = S ''balance of min''\<rparr>),
     (S ''Jump Rope'',
        \<lparr>sets = Word (S ''EMOM''), reps = S ''20 skips/min'', rest = S ''balance of min''\<rparr>)]"

definition WARMUPS :: "(pystr \<times> pystr list) list" where
  "WARMUPS =
    [(S ''pull'', [S ''Arm Circles'', S ''Cat'' @ [8211] @ S ''Cow'']),
     (S ''push'', [S ''Arm Circles'', S ''Doorway Chest Stretch'']),
     (S ''legs'', [S ''Standing Quad Stretch'', S ''Hamstring Stretch'']),
     (S ''cardio'', [S ''Arm Circles'', S ''Standing Quad Stretch'']),
     (S ''general'', [S ''Arm Circles'', S ''Cat'' @ [8211] @ S ''Cow''])]"

definition COOLDOWNS :: "(pystr \<times> pystr list) list" where
  "COOLDOWNS =
    [(S ''pull'', [S ''Child'' @ [8217] @ S ''s pose'', S ''Hamstring Stretch'']),
     (S ''push'', [S ''Doorway Chest Stretch'', S ''Child'' @ [8217] @ S ''s pose'']),
     (S ''legs'', [S ''Standing Quad Stretch'', S ''Hamstring Stretch'', S ''Figure-4 Stretch'']),
     (S ''cardio'', [S ''Child'' @ [8217] @ S ''s pose'', S ''Hamstring Stretch'']),
     (S ''general'', [S ''Child'' @ [8217] @ S ''s pose'', S ''Hamstring Stretch''])]"

text \<open>\<open>d.get(k, default)\<close>.\<close>

definition dict_get :: "('k \<times> 'v) list \<Rightarrow> 'k \<Rightarrow> 'v \<Rightarrow> 'v" where
  "dict_get d k dflt = (case map_of d k of None \<Rightarrow> dflt | Some v \<Rightarrow> v)"

section \<open>Day classifier\<close>

text \<open>\<open>sub in name\<close> on strings is the contiguous-sublist test \<^const>\<open>sublist\<close>.\<close>

definition classify_day :: "pystr \<Rightarrow> pystr" where
  "classify_day day_name =
     (let name = py_lower day_name in
      if sublist (S ''pull'') name then S ''pull''
      else if sublist (S ''push'') name then S ''push''
      else if sublist (S ''leg'') name \<or> sublist (S ''legs'') name then S ''legs''
      else if sublist (S ''cardio'') name then S ''cardio''
      else S ''general'')"

section \<open>The plan\<close>

text \<open>
  A row of the table as pandas reads it: an empty cell is the float \<open>NaN\<close>, any other cell
  is taken to hold text. The Secondary and Tertiary columns are optional: \<open>None\<close> is the
  value of \<open>r.get(column, "")\<close> falling back to its default because the table has no such
  column. \<open>str\<close> of \<open>NaN\<close> is the text \<open>nan\<close>.
\<close>

datatype cell = NaN | Str pystr

fun py_str :: "cell \<Rightarrow> pystr" where
  "py_str NaN = S ''nan''"
| "py_str (Str s) = s"

record plan_row =
  Day :: cell
  Exercise :: cell
  Primary_Target :: cell
  Secondary_Target :: "cell option"
  Tertiary_Target :: "cell option"

type_synonym plan = "plan_row list"

fun dropna :: "cell list \<Rightarrow> pystr list" where
  "dropna [] = []"
| "dropna (NaN # cs) = dropna cs"
| "dropna (Str s # cs) = s # dropna cs"

fun unique_loop :: "pystr list \<Rightarrow> pystr set \<Rightarrow> pystr list \<Rightarrow> pystr list" where
  "unique_loop [] seen out = out"
| "unique_loop (d # ds) seen out =
     (if d \<notin> seen then unique_loop ds (insert d seen) (out @ [d])
      else unique_loop ds seen out)"

definition ordered_unique_days :: "plan \<Rightarrow> pystr list" where
  "ordered_unique_days df = unique_loop (dropna (map Day df)) {} []"

section \<open>Alias builder\<close>

type_synonym alias_state = "(pystr \<rightharpoonup> nat) \<times> (pystr \<rightharpoonup> pystr) \<times> (pystr \<times> pystr) list"

definition initial_counts :: "pystr \<rightharpoonup> nat" where
  "initial_counts =
     [S ''pull'' \<mapsto> 0, S ''push'' \<mapsto> 0, S ''legs'' \<mapsto> 0, S ''cardio'' \<mapsto> 0, S ''general'' \<mapsto> 0]"

text \<open>The body of the loop over the days: \<open>(counts, alias_to_day, rows)\<close> is the state.\<close>

definition alias_step :: "alias_state \<Rightarrow> pystr \<Rightarrow> alias_state" where
  "alias_step st d =
     (case st of (counts, alias_to_day, rows) \<Rightarrow>
        let typ = classify_day d;
            n = (case counts typ of None \<Rightarrow> 0 | Some k \<Rightarrow> k) + 1;
            counts' = counts(typ \<mapsto> n);
            alias = typ @ str_nat n;
            a1 = alias_to_day(alias \<mapsto> d);
            a2 = (if n = 1 then a1(typ \<mapsto> d) else a1)
        in (counts', a2, rows @ [(alias, d)]))"

fun alias_loop :: "pystr list \<Rightarrow> alias_state \<Rightarrow> alias_state" where
  "alias_loop [] st = st"
| "alias_loop (d # ds) st = alias_loop ds (alias_step st d)"

definition build_alias_map :: "plan \<Rightarrow> (pystr \<rightharpoonup> pystr) \<times> (pystr \<times> pystr) list" where
  "build_alias_map df =
     (case alias_loop (ordered_unique_days df) (initial_counts, Map.empty, []) of
        (counts, alias_to_day, rows) \<Rightarrow> (alias_to_day, rows))"

section \<open>Message renderer\<close>

definition google_exercise_link :: "pystr \<Rightarrow> pystr" where
  "google_exercise_link ex =
     S ''https://www.google.com/search?q='' @ quote_plus (S ''site:musclewiki.com '' @ ex)"

definition google_ref_link :: "pystr \<Rightarrow> pystr \<Rightarrow> pystr" where
  "google_ref_link term' suffix' =
     S ''https://www.google.com/search?q='' @ quote_plus (term' @ S '' '' @ suffix')"

definition bullet :: "pystr \<Rightarrow> pystr \<Rightarrow> pystr" where
  "bullet suffix' w = [8226] @ S '' '' @ w @ [NL] @ S ''  '' @ google_ref_link w suffix'"

text \<open>\<open>if str(r.get(column, ""))\<close>: the text of the cell, empty when the column is absent.\<close>

definition target_text :: "cell option \<Rightarrow> pystr" where
  "target_text c = (case c of None \<Rightarrow> [] | Some v \<Rightarrow> py_str v)"

text \<open>The entry of one row of the selected day (the body of the loop over \<open>sub\<close>).\<close>

definition row_details :: "plan_row \<Rightarrow> pystr" where
  "row_details r =
     (let ex = strip (py_str (Exercise r));
          url = google_exercise_link ex;
          cue = dict_get FORM_CUES ex [];
          d0 = S ''- *'' @ ex @ S ''*'' @ [NL] @ S ''  '' @ url @ [NL] @ S ''  Primary: ''
                 @ py_str (Primary_Target r);
          d1 = (if target_text (Secondary_Target r) \<noteq> []
                then d0 @ S '' | Secondary: '' @ target_text (Secondary_Target r) else d0);
          d2 = (if target_text (Tertiary_Target r) \<noteq> []
                then d1 @ S '' | Tertiary: '' @ target_text (Tertiary_Target r) else d1);
          d3 = (if cue \<noteq> [] then d2 @ [NL] @ S ''  Form Cue: '' @ cue else d2)
      in case map_of EXERCISE_PRESCRIPTIONS ex of
           None \<Rightarrow> d3
         | Some pres \<Rightarrow>
             d3 @ [NL] @ S ''  Prescription: '' @ format_sets (sets pres) @ S '' '' @ [215]
                @ S '' '' @ reps pres @ S '' | Rest: '' @ rest pres)"

text \<open>The entry of one of the three fixed exercises of a cardio day.\<close>

definition cardio_details :: "pystr \<Rightarrow> pystr" where
  "cardio_details ex =
     (let url = google_exercise_link ex;
          cue = dict_get FORM_CUES ex [];
          pres_str = (case map_of EXERCISE_PRESCRIPTIONS ex of
                        None \<Rightarrow> []
                      | Some pres \<Rightarrow>
                          format_sets (sets pres) @ S '' '' @ [215] @ S '' '' @ reps pres
                            @ S '' | Rest: '' @ rest pres)
      in S ''- *'' @ ex @ S ''*'' @ [NL] @ S ''  '' @ url @ [NL] @ S ''  Form Cue: '' @ cue
           @ [NL] @ S ''  Prescription: '' @ pres_str)"

definition main_lines :: "plan \<Rightarrow> pystr \<Rightarrow> pystr list" where
  "main_lines df day =
     (let sub = filter (\<lambda>r. Day r = Str day) df;
          lines = map row_details sub
      in if classify_day day = S ''cardio''
         then map cardio_details [S ''Kettlebell Swings'', S ''DB Thrusters'', S ''Jump Rope'']
         else lines)"

definition build_message_for_day :: "plan \<Rightarrow> pystr \<Rightarrow> pystr" where
  "build_message_for_day df day =
     (let typ = classify_day day;
          warm = map (bullet (S ''warm up'')) (dict_get WARMUPS typ (dict_get WARMUPS (S ''general'') []));
          cool = map (bullet (S ''stretch'')) (dict_get COOLDOWNS typ (dict_get COOLDOWNS (S ''general'') []));
          lines = main_lines df day
      in [128197] @ S '' *'' @ day @ S ''*'' @ [NL, NL]
           @ [128293] @ S '' *Warm-up*'' @ [NL] @ py_join [NL] warm @ [NL, NL]
           @ [127947, 65039] @ S '' *Main Workout*'' @ [NL] @ py_join [NL] lines @ [NL, NL]
           @ [129482] @ S '' *Cool-down*'' @ [NL] @ py_join [NL] cool @ [NL, NL]
           @ S ''Reply *DONE* when finished '' @ [128170])"

section \<open>Message chunker\<close>

text \<open>
  The inner loop over the lines of a paragraph that is too long; the state is
  \<open>(parts, block)\<close>.
\<close>

fun pack_lines :: "int \<Rightarrow> pystr list \<Rightarrow> pystr list \<times> pystr \<Rightarrow> pystr list \<times> pystr" where
  "pack_lines limit [] st = st"
| "pack_lines limit (ln # lns) (parts, block) =
     (let addl = ln @ [NL] in
      if int (length block) + int (length addl) \<le> limit
      then pack_lines limit lns (parts, block @ addl)
      else pack_lines limit lns (parts @ [rstrip block], addl))"

text \<open>The outer loop over the paragraphs; the state is \<open>(parts, cur)\<close>.\<close>

fun pack_paras :: "int \<Rightarrow> pystr list \<Rightarrow> pystr list \<times> pystr \<Rightarrow> pystr list \<times> pystr" where
  "pack_paras limit [] st = st"
| "pack_paras limit (p # ps) (parts, cur) =
     (let add = p @ [NL, NL] in
      if int (length cur) + int (length add) \<le> limit
      then pack_paras limit ps (parts, cur @ add)
      else
        let parts1 = (if cur \<noteq> [] then parts @ [rstrip cur] else parts) in
        if int (length add) > limit
        then
          (case pack_lines limit (py_split [NL] (p @ [NL])) (parts1, []) of
             (parts2, block) \<Rightarrow>
               pack_paras limit ps
                 (if block \<noteq> [] then parts2 @ [rstrip block] else parts2, []))
        else pack_paras limit ps (parts1, add))"

text \<open>The parts before the headers are put in front: the state of \<open>parts\<close> at line 203.\<close>

definition chunk_bodies :: "pystr \<Rightarrow> int \<Rightarrow> pystr list" where
  "chunk_bodies body limit =
     (case pack_paras limit (py_split [NL, NL] body) ([], []) of
        (parts, cur) \<Rightarrow> if cur \<noteq> [] then parts @ [rstrip cur] else parts)"

text \<open>The header of the part at 0-based position \<open>i\<close> of \<open>total'\<close>.\<close>

definition part_header :: "nat \<Rightarrow> nat \<Rightarrow> pystr" where
  "part_header i total' =
     S ''(Part '' @ str_nat (i + 1) @ S ''/'' @ str_nat total' @ S '')'' @ [NL, NL]"

definition add_part_headers :: "pystr list \<Rightarrow> pystr list" where
  "add_part_headers parts =
     (if length parts > 1
      then map (\<lambda>(i, pt). part_header i (length parts) @ pt) (enumerate 0 parts)
      else parts)"

definition chunk_message :: "pystr \<Rightarrow> int \<Rightarrow> pystr list" where
  "chunk_message body limit = add_part_headers (chunk_bodies body limit)"

section \<open>Day selector\<close>

datatype py_error =
  ZeroDivisionError
| KeyError pystr
| RuntimeError pystr
| TwilioRestException

text \<open>
  The state file holds a JSON object; \<open>last_day\<close> is \<open>None\<close> when the object has no such
  key, \<open>rest_today\<close> is the truth value of \<open>state.get("rest_today")\<close>. The file itself is
  a \<open>run_state option\<close>: \<open>None\<close> when it does not exist.
\<close>

record run_state =
  last_day :: "pystr option"
  rest_today :: bool

text \<open>
  \<open>weekday\<close> is \<open>datetime.now().weekday()\<close>. The result is the state file afterwards and
  the day returned or the exception raised.
\<close>

definition pick_day_for_today ::
    "pystr list \<Rightarrow> nat \<Rightarrow> run_state option \<Rightarrow> run_state option \<times> (py_error + pystr)" where
  "pick_day_for_today days weekday file =
     (if length days = 0 then (file, Inl ZeroDivisionError)
      else
        let idx = weekday mod length days in
        case file of
          None \<Rightarrow> (file, Inr (days ! idx))
        | Some state \<Rightarrow>
            if rest_today state
            then
              (Some (state\<lparr>rest_today := False\<rparr>),
               case last_day state of
                 None \<Rightarrow> Inl (KeyError (S ''last_day''))
               | Some d \<Rightarrow> Inr d)
            else (file, Inr (days ! idx)))"

section \<open>Delivery client\<close>

record message =
  account_sid :: pystr
  auth_token :: pystr
  msg_from :: pystr
  msg_to :: pystr
  msg_body :: pystr

text \<open>
  The provider is a parameter: given the requests submitted before and the request at hand
  it answers with the message's identifier, or \<open>None\<close> when \<open>messages.create\<close> raises.
  The environment (after \<open>load_dotenv\<close>) is a map from names to values.
\<close>

type_synonym provider = "message list \<Rightarrow> message \<Rightarrow> pystr option"

fun send_all :: "provider \<Rightarrow> message list \<Rightarrow> message list \<Rightarrow> message list \<times> (py_error + unit)" where
  "send_all api log [] = (log, Inr ())"
| "send_all api log (m # ms) =
     (case api log m of
        None \<Rightarrow> (log @ [m], Inl TwilioRestException)
      | Some sid \<Rightarrow> send_all api (log @ [m]) ms)"

definition to_list_of :: "(pystr \<rightharpoonup> pystr) \<Rightarrow> pystr list" where
  "to_list_of env =
     map strip
       (filter (\<lambda>x. strip x \<noteq> [])
          (py_split (S '','') (case env (S ''WHATSAPP_TO_LIST'') of None \<Rightarrow> [] | Some v \<Rightarrow> v)))"

text \<open>
  The result is the list of the requests submitted to the provider, in order, and the
  outcome.
\<close>

definition send_whatsapp_parts ::
    "(pystr \<rightharpoonup> pystr) \<Rightarrow> provider \<Rightarrow> pystr list \<Rightarrow> message list \<times> (py_error + unit)" where
  "send_whatsapp_parts env api parts =
     (let sid = env (S ''TWILIO_ACCOUNT_SID'');
          tok = env (S ''TWILIO_AUTH_TOKEN'');
          from_num = (case env (S ''TWILIO_WHATSAPP_FROM'') of
                        None \<Rightarrow> S ''whatsapp:+14155238886'' | Some v \<Rightarrow> v);
          to_list = to_list_of env;
          missing = ([], Inl (RuntimeError (S ''Missing Twilio creds in .env'')))
      in case (sid, tok) of
           (Some s, Some k) \<Rightarrow>
             if s = [] \<or> k = [] \<or> to_list = [] then missing
             else
               send_all api []
                 (concat (map (\<lambda>t. map (\<lambda>part.
                    \<lparr>account_sid = s, auth_token = k, msg_from = from_num, msg_to = t,
                     msg_body = part\<rparr>) parts) to_list))
         | _ \<Rightarrow> missing)"

section \<open>The daily job\<close>

text \<open>
  \<open>job_send_today\<close>: select, render, chunk, send, then record the day sent. The result is
  the state file afterwards, the requests submitted and the outcome.
\<close>

definition job_send_today ::
    "plan \<Rightarrow> int \<Rightarrow> nat \<Rightarrow> (pystr \<rightharpoonup> pystr) \<Rightarrow> provider \<Rightarrow> run_state option
       \<Rightarrow> run_state option \<times> message list \<times> (py_error + unit)" where
  "job_send_today df max_chars weekday env api file =
     (let days = ordered_unique_days df in
      case pick_day_for_today days weekday file of
        (file1, Inl e) \<Rightarrow> (file1, [], Inl e)
      | (file1, Inr day) \<Rightarrow>
          let body = build_message_for_day df day;
              parts = chunk_message body max_chars in
          (case send_whatsapp_parts env api parts of
             (log, Inl e) \<Rightarrow> (file1, log, Inl e)
           | (log, Inr u) \<Rightarrow> (Some \<lparr>last_day = Some day, rest_today = False\<rparr>, log, Inr ())))"

section \<open>Notions used in the statements and proofs\<close>

text \<open>
  The lines the chunker can fall back to: every paragraph of the blob, split the way the
  inner loop splits it.
\<close>

definition blob_lines :: "pystr \<Rightarrow> pystr set" where
  "blob_lines blob =
     (\<Union>p\<in>set (py_split [NL, NL] blob). set (py_split [NL] (p @ [NL])))"

text \<open>
  What a part may be (\<open>part_within\<close>) and what the block under construction may be
  (\<open>block_within\<close>): empty, within the limit, or made of one line of \<open>A\<close> alone.
\<close>

definition part_within :: "int \<Rightarrow> pystr set \<Rightarrow> pystr \<Rightarrow> bool" where
  "part_within L A pt \<longleftrightarrow>
     pt = [] \<or> int (length pt) \<le> L \<or> (\<exists>ln\<in>A. L < int (length ln) \<and> pt = rstrip ln)"

definition block_within :: "int \<Rightarrow> pystr set \<Rightarrow> pystr \<Rightarrow> bool" where
  "block_within L A block \<longleftrightarrow>
     block = [] \<or> int (length block) \<le> L \<or> (\<exists>ln\<in>A. block = ln @ [NL])"

text \<open>
  The reader's side of the round trip, in the words of the specification: take the header
  off every part when there is more than one part, and put a blank line between
  consecutive parts.
\<close>

definition strip_part_headers :: "pystr list \<Rightarrow> pystr list" where
  "strip_part_headers parts =
     (if length parts > 1
      then map (\<lambda>(i, pt). drop (length (part_header i (length parts))) pt) (enumerate 0 parts)
      else parts)"

definition reassemble :: "pystr list \<Rightarrow> pystr" where
  "reassemble parts = py_join [NL, NL] (strip_part_headers parts)"

text \<open>
  The five categories, and the numbered alias of the day at position \<open>i\<close> in the words of
  the specification: its category followed by the 1-based count of the days of that
  category up to and including it.
\<close>

definition categories :: "pystr set" where
  "categories = {S ''pull'', S ''push'', S ''legs'', S ''cardio'', S ''general''}"

definition is_digit :: "codepoint \<Rightarrow> bool" where
  "is_digit c \<longleftrightarrow> 48 \<le> c \<and> c \<le> 57"

definition occurrences :: "pystr \<Rightarrow> pystr list \<Rightarrow> nat" where
  "occurrences t ds = length (filter (\<lambda>d. classify_day d = t) ds)"

definition numbered_alias :: "pystr list \<Rightarrow> nat \<Rightarrow> pystr" where
  "numbered_alias ds i =
     classify_day (ds ! i) @ str_nat (occurrences (classify_day (ds ! i)) (take (Suc i) ds))"

text \<open>The state of the alias loop after the days \<open>ds\<close>.\<close>

definition alias_inv :: "pystr list \<Rightarrow> alias_state \<Rightarrow> bool" where
  "alias_inv ds st \<longleftrightarrow>
     (case st of (counts, m, rows) \<Rightarrow>
        (\<forall>t\<in>categories. counts t = Some (occurrences t ds)) \<and>
        rows = map (\<lambda>i. (numbered_alias ds i, ds ! i)) [0..<length ds] \<and>
        dom m = numbered_alias ds ` {..<length ds} \<union> classify_day ` set ds \<and>
        (\<forall>i<length ds. m (numbered_alias ds i) = Some (ds ! i)) \<and>
        (\<forall>i<length ds. (\<forall>j<i. classify_day (ds ! j) \<noteq> classify_day (ds ! i))
            \<longrightarrow> m (classify_day (ds ! i)) = Some (ds ! i)))"

section \<open>Example inputs\<close>

definition example_plan :: plan where
  "example_plan =
     map (\<lambda>d. \<lparr>Day = d, Exercise = Str (S ''Squat''), Primary_Target = Str (S ''Quads''),
                Secondary_Target = None, Tertiary_Target = None\<rparr>)
       [Str (S ''Pull Day''), Str (S ''Push Day''), NaN, Str (S ''Pull Day''),
        Str (S ''Pull Day 2'')]"

definition kettlebell_row :: plan_row where
  "kettlebell_row =
     \<lparr>Day = Str (S ''Cardio Day''), Exercise = Str (S ''Kettlebell Swings''),
      Primary_Target = Str (S ''Glutes''), Secondary_Target = None, Tertiary_Target = None\<rparr>"

text \<open>A row whose Secondary and Tertiary cells are empty in a table that has both columns.\<close>

definition pulldown_row :: plan_row where
  "pulldown_row =
     \<lparr>Day = Str (S ''Pull Day''), Exercise = Str (S ''Lat Pulldown''),
      Primary_Target = Str (S ''Lats''), Secondary_Target = Some NaN,
      Tertiary_Target = Some NaN\<rparr>"

definition five_days :: "pystr list" where
  "five_days = [S ''Pull Day'', S ''Push Day'', S ''Leg Day'', S ''Cardio Day'', S ''Core Day'']"

definition no_recipients_env :: "pystr \<rightharpoonup> pystr" where
  "no_recipients_env =
     [S ''TWILIO_ACCOUNT_SID'' \<mapsto> S ''AC1'', S ''TWILIO_AUTH_TOKEN'' \<mapsto> S ''secret'',
      S ''WHATSAPP_TO_LIST'' \<mapsto> S '' , '']"

definition two_recipients_env :: "pystr \<rightharpoonup> pystr" where
  "two_recipients_env =
     [S ''TWILIO_ACCOUNT_SID'' \<mapsto> S ''AC1'', S ''TWILIO_AUTH_TOKEN'' \<mapsto> S ''secret'',
      S ''WHATSAPP_TO_LIST'' \<mapsto> S ''+1, +2'']"

definition accepting_provider :: provider where
  "accepting_provider log m = Some (S ''SM1'')"

section \<open>Facts about the string operations\<close>

lemma S_append: "S a @ S b = S (a @ b)" "S a @ S b @ r = S (a @ b) @ r"
  by (simp_all add: S_def)

lemma S_eq_Nil: "S s = [] \<longleftrightarrow> s = []"
  by (simp add: S_def)

lemma is_space_NL: "is_space NL"
  by (simp add: is_space_def NL_def)

lemma rstrip_Nil: "rstrip [] = []"
  by (simp add: rstrip_def)

lemma rstrip_snoc_NL: "rstrip (s @ [NL]) = rstrip s"
  by (simp add: rstrip_def is_space_NL)

lemma rstrip_NL: "rstrip [NL] = []"
  using rstrip_snoc_NL [of "[]"] by (simp add: rstrip_Nil)

lemma length_rstrip_le: "length (rstrip s) \<le> length s"
  by (simp add: rstrip_def) (metis length_dropWhile_le length_rev)

lemma rstrip_unchanged: "c \<noteq> [] \<Longrightarrow> \<not> is_space (last c) \<Longrightarrow> rstrip c = c"
  by (cases c rule: rev_cases) (auto simp: rstrip_def)

lemma rstrip_paragraph: "c \<noteq> [] \<Longrightarrow> \<not> is_space (last c) \<Longrightarrow> rstrip (c @ [NL, NL]) = c"
proof -
  assume c: "c \<noteq> []" "\<not> is_space (last c)"
  have "rstrip (c @ [NL, NL]) = rstrip ((c @ [NL]) @ [NL])" by simp
  also have "\<dots> = rstrip c" by (simp only: rstrip_snoc_NL)
  finally show ?thesis using c by (simp add: rstrip_unchanged)
qed

lemma split_from_not_Nil: "split_from sep acc s \<noteq> []"
  by (induction sep acc s rule: split_from.induct) auto

lemma py_join_Cons: "ys \<noteq> [] \<Longrightarrow> py_join sep (x # ys) = x @ sep @ py_join sep ys"
  by (cases ys) auto

lemma join_split_from: "py_join sep (split_from sep acc s) = acc @ s"
proof (induction sep acc s rule: split_from.induct)
  case (1 sep acc)
  then show ?case by simp
next
  case (2 sep acc c cs)
  show ?case
  proof (cases "sep \<noteq> [] \<and> prefix sep (c # cs)")
    case True
    then obtain r where r: "c # cs = sep @ r" by (auto simp: prefix_def)
    have "py_join sep (split_from sep acc (c # cs)) =
            acc @ sep @ py_join sep (split_from sep [] (drop (length sep) (c # cs)))"
      using True by (simp add: py_join_Cons split_from_not_Nil)
    also have "\<dots> = acc @ sep @ drop (length sep) (c # cs)"
      using 2 True by simp
    also have "\<dots> = acc @ c # cs"
      by (simp add: r)
    finally show ?thesis .
  next
    case False
    then show ?thesis using 2 by auto
  qed
qed

lemma join_split: "py_join sep (py_split sep s) = s"
  by (simp add: py_split_def join_split_from)

lemma concat_split_from:
  "concat (map (\<lambda>p. p @ sep) (split_from sep acc s)) = acc @ s @ sep"
proof (induction sep acc s rule: split_from.induct)
  case (1 sep acc)
  then show ?case by simp
next
  case (2 sep acc c cs)
  show ?case
  proof (cases "sep \<noteq> [] \<and> prefix sep (c # cs)")
    case True
    then obtain r where r: "c # cs = sep @ r" by (auto simp: prefix_def)
    have "concat (map (\<lambda>p. p @ sep) (split_from sep acc (c # cs))) =
            acc @ sep @ concat (map (\<lambda>p. p @ sep) (split_from sep [] (drop (length sep) (c # cs))))"
      using True by simp
    also have "\<dots> = acc @ sep @ drop (length sep) (c # cs) @ sep"
      using 2 True by simp
    also have "\<dots> = acc @ (c # cs) @ sep"
      by (simp add: r)
    finally show ?thesis .
  next
    case False
    then show ?thesis using 2 by auto
  qed
qed

lemma py_join_merge:
  "py_join sep (xs @ [a @ sep @ b] @ ys) = py_join sep (xs @ [a, b] @ ys)"
proof (induction xs)
  case Nil
  show ?case by (cases ys) auto
next
  case (Cons x xs)
  then show ?case by (simp add: py_join_Cons)
qed

lemma split_from_no_sep: "c \<notin> set s \<Longrightarrow> split_from (c # sep) acc s = [acc @ s]"
  by (induction s arbitrary: acc) auto

lemma split_from_line: "NL \<notin> set s \<Longrightarrow> split_from [NL] acc (s @ [NL]) = [acc @ s, []]"
  by (induction s arbitrary: acc) auto

lemma str_nat_digits: "str_nat n \<noteq> [] \<and> (\<forall>c\<in>set (str_nat n). is_digit c)"
proof (induction n rule: str_nat.induct)
  case (1 n)
  show ?case
  proof (cases "n < 10")
    case True
    then show ?thesis by (subst (1 2) str_nat.simps) (simp add: is_digit_def)
  next
    case False
    have "n mod 10 < 10" by simp
    then have "is_digit (48 + n mod 10)" unfolding is_digit_def by linarith
    with False 1 show ?thesis by (subst (1 2) str_nat.simps) simp
  qed
qed

lemma str_nat_value: "foldl (\<lambda>a c. 10 * a + (c - 48)) 0 (str_nat n) = n"
proof (induction n rule: str_nat.induct)
  case (1 n)
  show ?case
  proof (cases "n < 10")
    case True
    then show ?thesis by (subst str_nat.simps) simp
  next
    case False
    with 1 show ?thesis by (subst str_nat.simps) simp
  qed
qed

lemma str_nat_inj: "str_nat a = str_nat b \<Longrightarrow> a = b"
  by (metis str_nat_value)

lemma part_headers_of_three:
  "part_header 0 3 = S ''(Part 1/3)'' @ [NL, NL]"
  "part_header 1 3 = S ''(Part 2/3)'' @ [NL, NL]"
  "part_header 2 3 = S ''(Part 3/3)'' @ [NL, NL]"
  by (simp_all add: part_header_def str_nat.simps S_def)

section \<open>The message chunker\<close>

text \<open>The equations that evaluate the chunker on a given blob.\<close>

lemmas chunk_eval =
  chunk_message_def chunk_bodies_def py_split_def add_part_headers_def part_header_def
  str_nat.simps rstrip_def is_space_def S_def NL_def enumerate_eq_zip
  strip_part_headers_def reassemble_def

subsection \<open>Size of the parts\<close>

lemma flush_within: "block_within L A block \<Longrightarrow> part_within L A (rstrip block)"
  unfolding block_within_def part_within_def
proof (elim disjE bexE)
  assume "block = []"
  then show "rstrip block = [] \<or> int (length (rstrip block)) \<le> L \<or>
      (\<exists>ln\<in>A. L < int (length ln) \<and> rstrip block = rstrip ln)"
    by (simp add: rstrip_Nil)
next
  assume "int (length block) \<le> L"
  moreover have "int (length (rstrip block)) \<le> int (length block)"
    using length_rstrip_le [of block] by simp
  ultimately show "rstrip block = [] \<or> int (length (rstrip block)) \<le> L \<or>
      (\<exists>ln\<in>A. L < int (length ln) \<and> rstrip block = rstrip ln)"
    by linarith
next
  fix ln assume ln: "ln \<in> A" "block = ln @ [NL]"
  then have eq: "rstrip block = rstrip ln" by (simp add: rstrip_snoc_NL)
  show "rstrip block = [] \<or> int (length (rstrip block)) \<le> L \<or>
      (\<exists>ln\<in>A. L < int (length ln) \<and> rstrip block = rstrip ln)"
  proof (cases "L < int (length ln)")
    case True
    with ln eq show ?thesis by blast
  next
    case False
    moreover have "int (length (rstrip ln)) \<le> int (length ln)"
      using length_rstrip_le [of ln] by simp
    ultimately show ?thesis using eq by simp
  qed
qed

lemma pack_lines_within:
  "pack_lines L lns (parts, block) = (parts', block') \<Longrightarrow>
   \<forall>pt\<in>set parts. part_within L A pt \<Longrightarrow> block_within L A block \<Longrightarrow> set lns \<subseteq> A \<Longrightarrow>
   (\<forall>pt\<in>set parts'. part_within L A pt) \<and> block_within L A block'"
proof (induction lns arbitrary: parts block)
  case Nil
  then show ?case by simp
next
  case (Cons ln lns)
  show ?case
  proof (cases "int (length block) + int (length (ln @ [NL])) \<le> L")
    case True
    then have run: "pack_lines L lns (parts, block @ ln @ [NL]) = (parts', block')"
      using Cons.prems(1) by simp
    have "block_within L A (block @ ln @ [NL])"
      using True by (simp add: block_within_def)
    from Cons.IH [OF run Cons.prems(2) this] Cons.prems(4) show ?thesis by simp
  next
    case False
    then have run: "pack_lines L lns (parts @ [rstrip block], ln @ [NL]) = (parts', block')"
      using Cons.prems(1) by simp
    have p: "\<forall>pt\<in>set (parts @ [rstrip block]). part_within L A pt"
      using Cons.prems(2) flush_within [OF Cons.prems(3)] by simp
    have "block_within L A (ln @ [NL])"
      using Cons.prems(4) by (auto simp: block_within_def)
    from Cons.IH [OF run p this] Cons.prems(4) show ?thesis by simp
  qed
qed

lemma pack_paras_within:
  "pack_paras L ps (parts, cur) = (parts', cur') \<Longrightarrow>
   \<forall>pt\<in>set parts. part_within L A pt \<Longrightarrow> cur = [] \<or> int (length cur) \<le> L \<Longrightarrow>
   \<forall>p\<in>set ps. set (py_split [NL] (p @ [NL])) \<subseteq> A \<Longrightarrow>
   (\<forall>pt\<in>set parts'. part_within L A pt) \<and> (cur' = [] \<or> int (length cur') \<le> L)"
proof (induction ps arbitrary: parts cur)
  case Nil
  then show ?case by simp
next
  case (Cons p ps)
  have rest: "\<forall>q\<in>set ps. set (py_split [NL] (q @ [NL])) \<subseteq> A"
    using Cons.prems(4) by simp
  have lines: "set (py_split [NL] (p @ [NL])) \<subseteq> A"
    using Cons.prems(4) by simp
  define parts1 where "parts1 = (if cur \<noteq> [] then parts @ [rstrip cur] else parts)"
  have p1: "\<forall>pt\<in>set parts1. part_within L A pt"
    using Cons.prems(2,3) flush_within [of L A cur]
    by (auto simp: parts1_def block_within_def)
  show ?case
  proof (cases "int (length cur) + int (length (p @ [NL, NL])) \<le> L")
    case True
    then have run: "pack_paras L ps (parts, cur @ p @ [NL, NL]) = (parts', cur')"
      using Cons.prems(1) by simp
    have "cur @ p @ [NL, NL] = [] \<or> int (length (cur @ p @ [NL, NL])) \<le> L"
      using True by simp
    from Cons.IH [OF run Cons.prems(2) this rest] show ?thesis .
  next
    case False
    note nofit = False
    show ?thesis
    proof (cases "int (length (p @ [NL, NL])) > L")
      case True
      obtain parts2 block where pl:
        "pack_lines L (py_split [NL] (p @ [NL])) (parts1, []) = (parts2, block)"
        by (cases "pack_lines L (py_split [NL] (p @ [NL])) (parts1, [])") auto
      have inv: "(\<forall>pt\<in>set parts2. part_within L A pt) \<and> block_within L A block"
        using pack_lines_within [OF pl p1 _ lines] by (simp add: block_within_def)
      define parts3 where "parts3 = (if block \<noteq> [] then parts2 @ [rstrip block] else parts2)"
      have p3: "\<forall>pt\<in>set parts3. part_within L A pt"
        using inv flush_within [of L A block] by (auto simp: parts3_def)
      have run: "pack_paras L ps (parts3, []) = (parts', cur')"
        using Cons.prems(1) nofit True pl
        by (simp add: parts1_def parts3_def Let_def)
      from Cons.IH [OF run p3 _ rest] show ?thesis by simp
    next
      case False
      then have run: "pack_paras L ps (parts1, p @ [NL, NL]) = (parts', cur')"
        using Cons.prems(1) nofit by (simp add: parts1_def Let_def)
      have "p @ [NL, NL] = [] \<or> int (length (p @ [NL, NL])) \<le> L"
        using False by simp
      from Cons.IH [OF run p1 this rest] show ?thesis .
    qed
  qed
qed

lemma chunk_bodies_within:
  "\<forall>pt\<in>set (chunk_bodies blob L). part_within L (blob_lines blob) pt"
proof -
  obtain parts cur where pp:
    "pack_paras L (py_split [NL, NL] blob) ([], []) = (parts, cur)"
    by (cases "pack_paras L (py_split [NL, NL] blob) ([], [])") auto
  have "(\<forall>pt\<in>set parts. part_within L (blob_lines blob) pt) \<and>
        (cur = [] \<or> int (length cur) \<le> L)"
    by (rule pack_paras_within [OF pp]) (auto simp: blob_lines_def)
  then show ?thesis
    using flush_within [of L "blob_lines blob" cur]
    by (auto simp: chunk_bodies_def pp block_within_def)
qed

lemma length_add_part_headers: "length (add_part_headers bs) = length bs"
  by (simp add: add_part_headers_def)

lemma nth_add_part_headers:
  "i < length bs \<Longrightarrow>
   add_part_headers bs ! i =
     (if 1 < length bs then part_header i (length bs) @ bs ! i else bs ! i)"
  by (simp add: add_part_headers_def nth_enumerate_eq)

text \<open>
  C1, as the code has it. The limit bounds the text of a part, not the part as returned:
  every returned part is the text \<open>pt\<close> the loops produced, behind its
  \<open>(Part i/total)\<close> header when there is more than one part, and it is \<open>pt\<close> that is
  empty, or at most \<open>L\<close> long, or the right-stripped text of one line longer than \<open>L\<close>.
  The header comes on top of the limit.
\<close>

theorem chunk_message_part_bound:
  assumes "i < length (chunk_message blob L)"
  shows "\<exists>pt. chunk_message blob L ! i =
              (if 1 < length (chunk_message blob L)
               then part_header i (length (chunk_message blob L)) @ pt else pt) \<and>
            (pt = [] \<or> int (length pt) \<le> L \<or>
             (\<exists>ln\<in>blob_lines blob. L < int (length ln) \<and> pt = rstrip ln))"
proof -
  define bs where "bs = chunk_bodies blob L"
  have len: "length (chunk_message blob L) = length bs"
    by (simp add: chunk_message_def bs_def length_add_part_headers)
  have i: "i < length bs"
    using assms len by simp
  have nth: "chunk_message blob L ! i =
      (if 1 < length bs then part_header i (length bs) @ bs ! i else bs ! i)"
    using nth_add_part_headers [OF i] by (simp add: chunk_message_def bs_def)
  have "part_within L (blob_lines blob) (bs ! i)"
    using chunk_bodies_within [of blob L] i by (simp add: bs_def)
  then have "bs ! i = [] \<or> int (length (bs ! i)) \<le> L \<or>
      (\<exists>ln\<in>blob_lines blob. L < int (length ln) \<and> bs ! i = rstrip ln)"
    by (simp add: part_within_def)
  with nth show ?thesis
    unfolding len by blast
qed

text \<open>
  Two paragraphs of eight characters and a limit of ten: each part's text fits, and each
  returned part is twenty characters long, with no line longer than eight.
\<close>

theorem chunk_message_header_exceeds_limit:
  "chunk_message (S ''aaaaaaaa'' @ [NL, NL] @ S ''bbbbbbbb'') 10 =
     [S ''(Part 1/2)'' @ [NL, NL] @ S ''aaaaaaaa'', S ''(Part 2/2)'' @ [NL, NL] @ S ''bbbbbbbb''] \<and>
   length (S ''(Part 1/2)'' @ [NL, NL] @ S ''aaaaaaaa'') = 20 \<and>
   length (S ''(Part 2/2)'' @ [NL, NL] @ S ''bbbbbbbb'') = 20 \<and>
   py_split [NL, NL] (S ''aaaaaaaa'' @ [NL, NL] @ S ''bbbbbbbb'') = [S ''aaaaaaaa'', S ''bbbbbbbb''] \<and>
   py_split [NL] (S ''aaaaaaaa'' @ [NL]) = [S ''aaaaaaaa'', []] \<and>
   py_split [NL] (S ''bbbbbbbb'' @ [NL]) = [S ''bbbbbbbb'', []]"
  by (simp add: chunk_eval)

theorem chunk_message_part_bound_witness:
  "1 < length (chunk_message (S ''aaaaaaaa'' @ [NL, NL] @ S ''bbbbbbbb'') 10) \<and>
   (\<exists>pt. chunk_message (S ''aaaaaaaa'' @ [NL, NL] @ S ''bbbbbbbb'') 10 ! 1 =
            part_header 1 (length (chunk_message (S ''aaaaaaaa'' @ [NL, NL] @ S ''bbbbbbbb'') 10))
              @ pt \<and>
          (pt = [] \<or> int (length pt) \<le> 10 \<or>
           (\<exists>ln\<in>blob_lines (S ''aaaaaaaa'' @ [NL, NL] @ S ''bbbbbbbb'').
              10 < int (length ln) \<and> pt = rstrip ln)))"
proof -
  have h: "1 < length (chunk_message (S ''aaaaaaaa'' @ [NL, NL] @ S ''bbbbbbbb'') 10)"
    by (simp add: chunk_eval)
  from chunk_message_part_bound [OF h] h show ?thesis
    by simp
qed

subsection \<open>A blob that fits\<close>

lemma pack_paras_fits:
  "int (length cur) + int (length (concat (map (\<lambda>p. p @ [NL, NL]) ps))) \<le> L \<Longrightarrow>
   pack_paras L ps (parts, cur) = (parts, cur @ concat (map (\<lambda>p. p @ [NL, NL]) ps))"
  by (induction ps arbitrary: cur) auto

text \<open>
  A blob that fits the limit with one separator behind it is returned as a single part,
  right-stripped and without a header.
\<close>

theorem chunk_message_fits_one_part:
  assumes "int (length blob) + 2 \<le> L"
  shows "chunk_message blob L = [rstrip blob]"
proof -
  have c: "concat (map (\<lambda>p. p @ [NL, NL]) (py_split [NL, NL] blob)) = blob @ [NL, NL]"
    by (simp add: py_split_def concat_split_from)
  have "pack_paras L (py_split [NL, NL] blob) ([], []) = ([], blob @ [NL, NL])"
    using pack_paras_fits [of "[]" "py_split [NL, NL] blob" L "[]"] assms
    by (simp add: c)
  moreover have "rstrip (blob @ [NL, NL]) = rstrip blob"
    using rstrip_snoc_NL [of "blob @ [NL]"] by (simp add: rstrip_snoc_NL)
  ultimately show ?thesis
    by (simp add: chunk_message_def chunk_bodies_def add_part_headers_def)
qed

theorem chunk_message_fits_one_part_witness:
  "int (length (S ''aaaaaaaa'' @ [NL, NL] @ S ''bbbbbbbb'')) + 2 \<le> 20 \<and>
   chunk_message (S ''aaaaaaaa'' @ [NL, NL] @ S ''bbbbbbbb'') 20
     = [S ''aaaaaaaa'' @ [NL, NL] @ S ''bbbbbbbb'']"
proof -
  have h: "int (length (S ''aaaaaaaa'' @ [NL, NL] @ S ''bbbbbbbb'')) + 2 \<le> 20"
    by (simp add: S_def)
  have r: "rstrip (S ''aaaaaaaa'' @ [NL, NL] @ S ''bbbbbbbb'')
      = S ''aaaaaaaa'' @ [NL, NL] @ S ''bbbbbbbb''"
    by (simp add: rstrip_def is_space_def S_def NL_def)
  from chunk_message_fits_one_part [OF h] h r show ?thesis by simp
qed

subsection \<open>Putting the parts together again\<close>

lemma length_strip_part_headers: "length (strip_part_headers xs) = length xs"
  by (simp add: strip_part_headers_def)

lemma strip_add_part_headers: "strip_part_headers (add_part_headers bs) = bs"
proof (cases "1 < length bs")
  case False
  then show ?thesis by (simp add: strip_part_headers_def add_part_headers_def)
next
  case True
  define hs where "hs = add_part_headers bs"
  have len: "length hs = length bs"
    by (simp add: hs_def length_add_part_headers)
  have hs_nth: "hs ! i = part_header i (length bs) @ bs ! i" if "i < length bs" for i
    using that True by (simp add: hs_def nth_add_part_headers)
  have "strip_part_headers hs = bs"
  proof (rule nth_equalityI)
    show "length (strip_part_headers hs) = length bs"
      by (simp add: length_strip_part_headers len)
  next
    fix i assume "i < length (strip_part_headers hs)"
    then have i: "i < length bs"
      by (simp add: length_strip_part_headers len)
    have "strip_part_headers hs ! i = drop (length (part_header i (length bs))) (hs ! i)"
      using i True len by (simp add: strip_part_headers_def nth_enumerate_eq)
    then show "strip_part_headers hs ! i = bs ! i"
      by (simp add: hs_nth [OF i])
  qed
  then show ?thesis by (simp add: hs_def)
qed

text \<open>
  While every paragraph fits, the loop keeps \<open>cur\<close> a run of paragraphs with their
  separators, and flushing it gives that run without the last separator.
\<close>

lemma pack_paras_join:
  "\<forall>p\<in>set ps. p \<noteq> [] \<and> \<not> is_space (last p) \<and> int (length p) + 2 \<le> L \<Longrightarrow>
   c \<noteq> [] \<Longrightarrow> \<not> is_space (last c) \<Longrightarrow>
   pack_paras L ps (parts, c @ [NL, NL]) = (parts', cur') \<Longrightarrow>
   cur' \<noteq> [] \<and> py_join [NL, NL] (parts' @ [rstrip cur']) = py_join [NL, NL] (parts @ [c] @ ps)"
proof (induction ps arbitrary: parts c)
  case Nil
  then show ?case by (auto simp: rstrip_paragraph)
next
  case (Cons p ps)
  have good: "p \<noteq> []" "\<not> is_space (last p)" "int (length p) + 2 \<le> L"
    and rest: "\<forall>q\<in>set ps. q \<noteq> [] \<and> \<not> is_space (last q) \<and> int (length q) + 2 \<le> L"
    using Cons.prems(1) by simp_all
  show ?case
  proof (cases "int (length (c @ [NL, NL])) + int (length (p @ [NL, NL])) \<le> L")
    case True
    then have run: "pack_paras L ps (parts, (c @ [NL, NL] @ p) @ [NL, NL]) = (parts', cur')"
      using Cons.prems(4) by simp
    have ne: "c @ [NL, NL] @ p \<noteq> []" and sp: "\<not> is_space (last (c @ [NL, NL] @ p))"
      using good by simp_all
    from Cons.IH [OF rest ne sp run]
    have "cur' \<noteq> []" and
      "py_join [NL, NL] (parts' @ [rstrip cur']) =
       py_join [NL, NL] (parts @ [c @ [NL, NL] @ p] @ ps)" by simp_all
    then show ?thesis
      using py_join_merge [of "[NL, NL]" parts c p ps] by simp
  next
    case False
    then have run: "pack_paras L ps (parts @ [c], p @ [NL, NL]) = (parts', cur')"
      using Cons.prems(2,3,4) good(3) by (simp add: rstrip_paragraph Let_def)
    from Cons.IH [OF rest good(1,2) run] show ?thesis by simp
  qed
qed

lemma chunk_bodies_join:
  assumes "\<forall>p\<in>set (py_split [NL, NL] blob).
             p \<noteq> [] \<and> \<not> is_space (last p) \<and> int (length p) + 2 \<le> L"
  shows "py_join [NL, NL] (chunk_bodies blob L) = blob"
proof -
  obtain p ps where ps: "py_split [NL, NL] blob = p # ps"
    using split_from_not_Nil [of "[NL, NL]" "[]" blob]
    by (cases "py_split [NL, NL] blob") (auto simp: py_split_def)
  have good: "p \<noteq> []" "\<not> is_space (last p)" "int (length p) + 2 \<le> L"
    and rest: "\<forall>q\<in>set ps. q \<noteq> [] \<and> \<not> is_space (last q) \<and> int (length q) + 2 \<le> L"
    using assms by (simp_all add: ps)
  obtain parts' cur' where run: "pack_paras L ps ([], p @ [NL, NL]) = (parts', cur')"
    by (cases "pack_paras L ps ([], p @ [NL, NL])") auto
  have first: "pack_paras L (p # ps) ([], []) = (parts', cur')"
    using good(3) run by simp
  from pack_paras_join [OF rest good(1,2) run]
  have "cur' \<noteq> []" and "py_join [NL, NL] (parts' @ [rstrip cur']) = py_join [NL, NL] (p # ps)"
    by simp_all
  then have "py_join [NL, NL] (chunk_bodies blob L) = py_join [NL, NL] (py_split [NL, NL] blob)"
    by (simp add: chunk_bodies_def ps first del: pack_paras.simps)
  then show ?thesis by (simp add: join_split)
qed

text \<open>
  C2, as the code has it. Taking the headers off and putting a blank line between the parts
  gives the blob back when every paragraph of the blob is non-empty, does not end in white
  space and fits the limit together with its separator. Then no paragraph is split into
  lines and \<open>rstrip\<close> removes nothing but the separator.
\<close>

theorem chunk_message_round_trip:
  assumes "\<forall>p\<in>set (py_split [NL, NL] blob).
             p \<noteq> [] \<and> \<not> is_space (last p) \<and> int (length p) + 2 \<le> L"
  shows "reassemble (chunk_message blob L) = blob"
  using chunk_bodies_join [OF assms]
  by (simp add: reassemble_def chunk_message_def strip_add_part_headers)

text \<open>
  Without these conditions the blob is not recovered. A paragraph of two lines that is too
  long comes back with a blank line between its lines; a blob that ends in a blank line
  loses it; a blob that ends in a space loses it.
\<close>

theorem chunk_message_round_trip_fails:
  "reassemble (chunk_message (S ''a'' @ [NL] @ S ''b'') 3) = S ''a'' @ [NL, NL] @ S ''b'' \<and>
   S ''a'' @ [NL, NL] @ S ''b'' \<noteq> S ''a'' @ [NL] @ S ''b'' \<and>
   reassemble (chunk_message (S ''a'' @ [NL, NL]) 100) = S ''a'' \<and>
   S ''a'' \<noteq> S ''a'' @ [NL, NL] \<and>
   reassemble (chunk_message (S ''a '') 100) = S ''a'' \<and>
   S ''a'' \<noteq> S ''a ''"
  by (simp add: chunk_eval)

theorem chunk_message_round_trip_witness:
  "py_split [NL, NL] (S ''aaaaaaaa'' @ [NL, NL] @ S ''bbbbbbbb'') = [S ''aaaaaaaa'', S ''bbbbbbbb''] \<and>
   S ''aaaaaaaa'' \<noteq> [] \<and> \<not> is_space (last (S ''aaaaaaaa'')) \<and>
   int (length (S ''aaaaaaaa'')) + 2 \<le> 10 \<and>
   S ''bbbbbbbb'' \<noteq> [] \<and> \<not> is_space (last (S ''bbbbbbbb'')) \<and>
   int (length (S ''bbbbbbbb'')) + 2 \<le> 10 \<and>
   reassemble (chunk_message (S ''aaaaaaaa'' @ [NL, NL] @ S ''bbbbbbbb'') 10)
     = S ''aaaaaaaa'' @ [NL, NL] @ S ''bbbbbbbb''"
proof -
  have sp: "py_split [NL, NL] (S ''aaaaaaaa'' @ [NL, NL] @ S ''bbbbbbbb'')
      = [S ''aaaaaaaa'', S ''bbbbbbbb'']"
    by (simp add: chunk_eval)
  have a: "S ''aaaaaaaa'' \<noteq> [] \<and> \<not> is_space (last (S ''aaaaaaaa'')) \<and>
      int (length (S ''aaaaaaaa'')) + 2 \<le> 10"
    by (simp add: S_def is_space_def)
  have b: "S ''bbbbbbbb'' \<noteq> [] \<and> \<not> is_space (last (S ''bbbbbbbb'')) \<and>
      int (length (S ''bbbbbbbb'')) + 2 \<le> 10"
    by (simp add: S_def is_space_def)
  have h: "\<forall>p\<in>set (py_split [NL, NL] (S ''aaaaaaaa'' @ [NL, NL] @ S ''bbbbbbbb'')).
      p \<noteq> [] \<and> \<not> is_space (last p) \<and> int (length p) + 2 \<le> 10"
    unfolding sp using a b by simp
  from chunk_message_round_trip [OF h] sp a b show ?thesis
    by blast
qed

subsection \<open>A single line longer than the limit\<close>

text \<open>
  A blob that is one line longer than the limit: the inner loop first flushes the empty
  block, then the line, and what is left is the block of the empty last piece of the split.
\<close>

lemma chunk_message_single_long_line:
  assumes "NL \<notin> set ln" and "L < int (length ln)"
  shows "chunk_message ln L =
           [S ''(Part 1/3)'' @ [NL, NL],
            S ''(Part 2/3)'' @ [NL, NL] @ rstrip ln,
            S ''(Part 3/3)'' @ [NL, NL]]"
proof -
  have paras: "py_split [NL, NL] ln = [ln]"
    using assms(1) by (simp add: py_split_def split_from_no_sep)
  have lines: "py_split [NL] (ln @ [NL]) = [ln, []]"
    using assms(1) by (simp add: py_split_def split_from_line)
  have "pack_paras L [ln] ([], []) = ([[], rstrip ln, []], [])"
    using assms(2) by (simp add: lines rstrip_NL rstrip_Nil rstrip_snoc_NL)
  then have "chunk_bodies ln L = [[], rstrip ln, []]"
    by (simp add: chunk_bodies_def paras)
  then show ?thesis
    using part_headers_of_three
    by (simp add: chunk_message_def add_part_headers_def enumerate_eq_zip upt_rec
        numeral_3_eq_3 numeral_2_eq_2 del: upt_Suc)
qed

text \<open>
  C3 on the specification's own scenario, one line of 2000 characters and a limit of 1500:
  three parts are returned, the first and the last holding a header and nothing else.
\<close>

theorem chunk_message_long_line_three_parts:
  "chunk_message (replicate 2000 97) 1500 =
     [S ''(Part 1/3)'' @ [NL, NL],
      S ''(Part 2/3)'' @ [NL, NL] @ replicate 2000 97,
      S ''(Part 3/3)'' @ [NL, NL]]"
proof -
  have "NL \<notin> set (replicate 2000 (97::nat))"
    by (simp add: NL_def)
  moreover have "1500 < int (length (replicate 2000 (97::nat)))"
    by simp
  moreover have "rstrip (replicate 2000 97) = replicate 2000 97"
    by (simp add: rstrip_def is_space_def)
  ultimately show ?thesis
    using chunk_message_single_long_line [of "replicate 2000 97" 1500] by simp
qed

section \<open>The day classifier\<close>





section \<open>The alias builder\<close>

subsection \<open>The unique days\<close>

lemma unique_loop_distinct:
  "seen = set out \<Longrightarrow> distinct out \<Longrightarrow>
   distinct (unique_loop ds seen out) \<and> set (unique_loop ds seen out) = set out \<union> set ds"
  by (induction ds seen out rule: unique_loop.induct) auto

lemma ordered_unique_days_distinct:
  "distinct (ordered_unique_days df) \<and>
   set (ordered_unique_days df) = set (dropna (map Day df))"
  using unique_loop_distinct [of "{}" "[]" "dropna (map Day df)"]
  by (simp add: ordered_unique_days_def)

subsection \<open>Aliases are told apart by their text\<close>

lemma classify_day_in_categories: "classify_day d \<in> categories"
  by (simp add: classify_day_def categories_def Let_def)

lemma categories_no_digit: "t \<in> categories \<Longrightarrow> c \<in> set t \<Longrightarrow> \<not> is_digit c"
  by (auto simp: categories_def S_def is_digit_def)

lemma classify_day_no_digit: "c \<in> set (classify_day d) \<Longrightarrow> \<not> is_digit c"
  using categories_no_digit classify_day_in_categories by blast

lemma card_categories: "card categories = 5"
  by (simp add: categories_def S_def)

lemma takeWhile_letters:
  assumes "\<forall>c\<in>set t. \<not> is_digit c"
  shows "takeWhile (\<lambda>c. \<not> is_digit c) (t @ str_nat n) = t"
proof -
  obtain c cs where s: "str_nat n = c # cs" "is_digit c"
    using str_nat_digits [of n] by (cases "str_nat n") auto
  then show ?thesis using assms by simp
qed

lemma alias_eq:
  assumes "\<forall>c\<in>set t1. \<not> is_digit c" "\<forall>c\<in>set t2. \<not> is_digit c"
    and "t1 @ str_nat a = t2 @ str_nat b"
  shows "t1 = t2 \<and> a = b"
proof -
  have "t1 = t2"
    using takeWhile_letters [OF assms(1), of a] takeWhile_letters [OF assms(2), of b] assms(3)
    by simp
  with assms(3) show ?thesis using str_nat_inj by simp
qed

lemma alias_not_bare:
  assumes "\<forall>c\<in>set t2. \<not> is_digit c"
  shows "t1 @ str_nat a \<noteq> t2"
proof
  assume eq: "t1 @ str_nat a = t2"
  obtain c where "c \<in> set (str_nat a)" "is_digit c"
    using str_nat_digits [of a] by (cases "str_nat a") auto
  then have "c \<in> set t2" using eq by auto
  with assms \<open>is_digit c\<close> show False by blast
qed

subsection \<open>Counting the days of a category\<close>

lemma occurrences_snoc:
  "occurrences t (ds @ [d]) = occurrences t ds + (if classify_day d = t then 1 else 0)"
  by (simp add: occurrences_def)

lemma occurrences_take_le: "occurrences t (take k ds) \<le> occurrences t ds"
proof -
  have "occurrences t ds = occurrences t (take k ds) + occurrences t (drop k ds)"
    unfolding occurrences_def by (metis append_take_drop_id filter_append length_append)
  then show ?thesis by simp
qed

lemma occurrences_zero_iff:
  "occurrences t ds = 0 \<longleftrightarrow> (\<forall>j<length ds. classify_day (ds ! j) \<noteq> t)"
  unfolding occurrences_def length_0_conv filter_empty_conv
  by (metis in_set_conv_nth)

lemma numbered_alias_snoc_old:
  "i < length ds \<Longrightarrow> numbered_alias (ds @ [d]) i = numbered_alias ds i"
  by (simp add: numbered_alias_def nth_append)

lemma numbered_alias_snoc_new:
  "numbered_alias (ds @ [d]) (length ds) =
     classify_day d @ str_nat (occurrences (classify_day d) ds + 1)"
  by (simp add: numbered_alias_def occurrences_snoc)

lemma numbered_alias_old_neq_new:
  assumes "i < length ds"
  shows "numbered_alias ds i \<noteq> classify_day d @ str_nat (occurrences (classify_day d) ds + 1)"
proof
  assume eq: "numbered_alias ds i = classify_day d @ str_nat (occurrences (classify_day d) ds + 1)"
  have "classify_day (ds ! i) = classify_day d \<and>
        occurrences (classify_day (ds ! i)) (take (Suc i) ds) = occurrences (classify_day d) ds + 1"
    by (rule alias_eq) (use eq classify_day_no_digit in \<open>auto simp: numbered_alias_def\<close>)
  then have e1: "classify_day (ds ! i) = classify_day d"
    and e2: "occurrences (classify_day (ds ! i)) (take (Suc i) ds)
               = occurrences (classify_day d) ds + 1"
    by blast+
  from e2 have "occurrences (classify_day d) (take (Suc i) ds) = occurrences (classify_day d) ds + 1"
    unfolding e1 .
  with occurrences_take_le [of "classify_day d" "Suc i" ds] show False by simp
qed

lemma numbered_alias_not_category: "numbered_alias ds i \<noteq> classify_day d"
  unfolding numbered_alias_def
  by (rule alias_not_bare) (use classify_day_no_digit in blast)

lemma category_not_numbered: "t \<in> categories \<Longrightarrow> numbered_alias ds i \<noteq> t"
  unfolding numbered_alias_def
  by (rule alias_not_bare) (use categories_no_digit in blast)

lemma distinct_numbered_alias: "distinct (map (numbered_alias ds) [0..<length ds])"
proof (induction ds rule: rev_induct)
  case Nil
  show ?case by simp
next
  case (snoc d ds)
  have old: "map (numbered_alias (ds @ [d])) [0..<length ds] = map (numbered_alias ds) [0..<length ds]"
    by (rule map_cong) (simp_all add: numbered_alias_snoc_old)
  have neq: "numbered_alias (ds @ [d]) (length ds) \<noteq> numbered_alias ds i" if "i < length ds" for i
    using numbered_alias_old_neq_new [OF that, of d] unfolding numbered_alias_snoc_new
    by (rule not_sym)
  have new: "numbered_alias (ds @ [d]) (length ds) \<notin> set (map (numbered_alias ds) [0..<length ds])"
  proof
    assume "numbered_alias (ds @ [d]) (length ds) \<in> set (map (numbered_alias ds) [0..<length ds])"
    then obtain i where "i < length ds"
      "numbered_alias (ds @ [d]) (length ds) = numbered_alias ds i" by auto
    with neq show False by blast
  qed
  show ?case
    using snoc.IH new by (simp add: old)
qed

lemma card_numbered_alias: "card (numbered_alias ds ` {..<length ds}) = length ds"
proof -
  have "numbered_alias ds ` {..<length ds} = set (map (numbered_alias ds) [0..<length ds])"
    by (simp add: atLeast0LessThan)
  then show ?thesis
    using distinct_card [OF distinct_numbered_alias [of ds]] by simp
qed

subsection \<open>The loop\<close>

lemma alias_loop_snoc: "alias_loop (ds @ [d]) st = alias_step (alias_loop ds st) d"
  by (induction ds arbitrary: st) auto

lemma alias_inv_initial: "alias_inv [] (initial_counts, Map.empty, [])"
  by (auto simp: alias_inv_def initial_counts_def categories_def occurrences_def)

lemma alias_inv_step:
  assumes "alias_inv ds st"
  shows "alias_inv (ds @ [d]) (alias_step st d)"
proof -
  obtain counts m rows where st: "st = (counts, m, rows)" by (cases st) auto
  define tp where "tp = classify_day d"
  define n where "n = occurrences tp ds + 1"
  define al where "al = tp @ str_nat n"
  define m' where "m' = (if n = 1 then m(al \<mapsto> d, tp \<mapsto> d) else m(al \<mapsto> d))"
  have tp_cat: "tp \<in> categories"
    by (simp add: tp_def classify_day_in_categories)
  from assms have
    c: "\<forall>t\<in>categories. counts t = Some (occurrences t ds)" and
    r: "rows = map (\<lambda>i. (numbered_alias ds i, ds ! i)) [0..<length ds]" and
    dm: "dom m = numbered_alias ds ` {..<length ds} \<union> classify_day ` set ds" and
    nm: "\<forall>i<length ds. m (numbered_alias ds i) = Some (ds ! i)" and
    bare: "\<forall>i<length ds. (\<forall>j<i. classify_day (ds ! j) \<noteq> classify_day (ds ! i))
            \<longrightarrow> m (classify_day (ds ! i)) = Some (ds ! i)"
    by (simp_all add: alias_inv_def st)
  have cnt: "counts tp = Some (occurrences tp ds)"
    using c tp_cat by simp
  have n_eq: "(case counts tp of None \<Rightarrow> 0 | Some k \<Rightarrow> k) + 1 = n"
    by (simp add: cnt n_def)
  have step: "alias_step st d = (counts(tp \<mapsto> n), m', rows @ [(al, d)])"
    by (simp only: alias_step_def st prod.case Let_def tp_def [symmetric] n_eq
        al_def [symmetric] m'_def)
  have new: "numbered_alias (ds @ [d]) (length ds) = al"
    by (simp add: numbered_alias_snoc_new al_def n_def tp_def)
  have al_tp: "al \<noteq> tp"
    unfolding al_def tp_def
    by (rule alias_not_bare) (use classify_day_no_digit in blast)
  have old_new: "numbered_alias ds i \<noteq> al" if "i < length ds" for i
    using numbered_alias_old_neq_new [OF that, of d] by (simp add: al_def n_def tp_def)
  have old_tp: "numbered_alias ds i \<noteq> tp" for i
    by (simp add: tp_def numbered_alias_not_category)
  have cat_al: "classify_day x \<noteq> al" for x
    using alias_not_bare [of "classify_day x" tp n] classify_day_no_digit
    by (auto simp: al_def)
  have m'_old: "m' k = m k" if "k \<noteq> al" "k \<noteq> tp \<or> n \<noteq> 1" for k
    using that by (auto simp: m'_def)
  have m'_al: "m' al = Some d"
    using al_tp by (simp add: m'_def)
  have dom_m': "dom m' = insert al (if n = 1 then insert tp (dom m) else dom m)"
    by (auto simp: m'_def)
  have seen: "tp \<in> classify_day ` set ds" if "n \<noteq> 1"
  proof -
    from that have "occurrences tp ds \<noteq> 0" by (simp add: n_def)
    then obtain j where "j < length ds" "classify_day (ds ! j) = tp"
      by (auto simp: occurrences_zero_iff)
    then show ?thesis by (metis image_eqI nth_mem)
  qed
  have g1: "\<forall>t\<in>categories. (counts(tp \<mapsto> n)) t = Some (occurrences t (ds @ [d]))"
    using c by (auto simp: occurrences_snoc n_def tp_def)
  have g2: "rows @ [(al, d)] =
      map (\<lambda>i. (numbered_alias (ds @ [d]) i, (ds @ [d]) ! i)) [0..<length (ds @ [d])]"
    by (simp add: r new numbered_alias_snoc_old nth_append)
  have img: "numbered_alias (ds @ [d]) ` {..<length (ds @ [d])} =
      insert al (numbered_alias ds ` {..<length ds})"
  proof -
    have "{..<length (ds @ [d])} = insert (length ds) {..<length ds}" by auto
    then have "numbered_alias (ds @ [d]) ` {..<length (ds @ [d])} =
        insert al (numbered_alias (ds @ [d]) ` {..<length ds})"
      by (simp add: new)
    moreover have "numbered_alias (ds @ [d]) ` {..<length ds} = numbered_alias ds ` {..<length ds}"
      by (rule image_cong) (simp_all add: numbered_alias_snoc_old)
    ultimately show ?thesis by simp
  qed
  have cats: "classify_day ` set (ds @ [d]) = insert tp (classify_day ` set ds)"
    by (simp add: tp_def)
  have "dom m' = insert al (numbered_alias ds ` {..<length ds})
      \<union> insert tp (classify_day ` set ds)"
    using seen by (auto simp: dom_m' dm)
  then have g3: "dom m' = numbered_alias (ds @ [d]) ` {..<length (ds @ [d])}
      \<union> classify_day ` set (ds @ [d])"
    by (simp only: img cats)
  have g4: "m' (numbered_alias (ds @ [d]) i) = Some ((ds @ [d]) ! i)"
    if "i < length (ds @ [d])" for i
  proof (cases "i < length ds")
    case True
    then show ?thesis
      using nm m'_old [of "numbered_alias ds i"] old_new old_tp
      by (simp add: numbered_alias_snoc_old nth_append)
  next
    case False
    with that have "i = length ds" by simp
    then show ?thesis by (simp add: new m'_al)
  qed
  have g5: "m' (classify_day ((ds @ [d]) ! i)) = Some ((ds @ [d]) ! i)"
    if i: "i < length (ds @ [d])"
      and first: "\<forall>j<i. classify_day ((ds @ [d]) ! j) \<noteq> classify_day ((ds @ [d]) ! i)" for i
  proof (cases "i < length ds")
    case True
    have f: "\<forall>j<i. classify_day (ds ! j) \<noteq> classify_day (ds ! i)"
      using first True by (auto simp: nth_append)
    have "classify_day (ds ! i) \<noteq> tp \<or> n \<noteq> 1"
    proof (cases "classify_day (ds ! i) = tp")
      case True
      with \<open>i < length ds\<close> have "occurrences tp ds \<noteq> 0"
        by (auto simp: occurrences_zero_iff)
      then show ?thesis by (simp add: n_def)
    qed simp
    then have "m' (classify_day (ds ! i)) = m (classify_day (ds ! i))"
      using cat_al by (intro m'_old) auto
    with bare True f show ?thesis by (simp add: nth_append)
  next
    case False
    with i have il: "i = length ds" by simp
    have "\<forall>j<length ds. classify_day (ds ! j) \<noteq> tp"
      using first il by (auto simp: nth_append tp_def)
    then have "n = 1" by (simp add: n_def occurrences_zero_iff)
    then show ?thesis by (simp add: il m'_def tp_def)
  qed
  show ?thesis
    unfolding step alias_inv_def prod.case
    using g1 g2 g3 g4 g5 by blast
qed

lemma alias_loop_inv: "alias_inv ds (alias_loop ds (initial_counts, Map.empty, []))"
proof (induction ds rule: rev_induct)
  case Nil
  show ?case by (simp add: alias_inv_initial)
next
  case (snoc d ds)
  then show ?case by (simp add: alias_loop_snoc alias_inv_step)
qed

text \<open>
  C5. With \<open>days\<close> the unique days of the plan in first-seen order (\<open>N\<close> is their number):
  the rows pair each day with its numbered alias; the keys of the map are the \<open>N\<close> numbered
  aliases and the categories that occur, \<open>N\<close> plus the number of those categories (at most
  five) in all; a numbered alias maps to its day, and a category name maps to the first day
  of that category, or to nothing when there is none.
\<close>

theorem build_alias_map_keys:
  "let days = ordered_unique_days df;
       alias_to_day = fst (build_alias_map df);
       rows = snd (build_alias_map df)
   in distinct days \<and> set days = set (dropna (map Day df)) \<and>
      rows = map (\<lambda>i. (numbered_alias days i, days ! i)) [0..<length days] \<and>
      dom alias_to_day = numbered_alias days ` {..<length days} \<union> classify_day ` set days \<and>
      card (dom alias_to_day) = length days + card (classify_day ` set days) \<and>
      card (classify_day ` set days) \<le> 5 \<and>
      (\<forall>i<length days. alias_to_day (numbered_alias days i) = Some (days ! i)) \<and>
      (\<forall>t\<in>categories. alias_to_day t = List.find (\<lambda>d. classify_day d = t) days)"
proof -
  define days where "days = ordered_unique_days df"
  obtain counts m rows where run:
    "alias_loop days (initial_counts, Map.empty, []) = (counts, m, rows)"
    by (cases "alias_loop days (initial_counts, Map.empty, [])") auto
  have bm: "build_alias_map df = (m, rows)"
    by (simp add: build_alias_map_def days_def [symmetric] run)
  from alias_loop_inv [of days] have
    r: "rows = map (\<lambda>i. (numbered_alias days i, days ! i)) [0..<length days]" and
    dm: "dom m = numbered_alias days ` {..<length days} \<union> classify_day ` set days" and
    nm: "\<forall>i<length days. m (numbered_alias days i) = Some (days ! i)" and
    bare: "\<forall>i<length days. (\<forall>j<i. classify_day (days ! j) \<noteq> classify_day (days ! i))
            \<longrightarrow> m (classify_day (days ! i)) = Some (days ! i)"
    by (simp_all add: alias_inv_def run)
  have disj: "numbered_alias days ` {..<length days} \<inter> classify_day ` set days = {}"
    using numbered_alias_not_category by fastforce
  have card_dom: "card (dom m) = length days + card (classify_day ` set days)"
    unfolding dm using disj
    by (subst card_Un_disjoint) (simp_all add: card_numbered_alias)
  have "classify_day ` set days \<subseteq> categories"
    using classify_day_in_categories by blast
  moreover have "finite categories" by (simp add: categories_def)
  ultimately have "card (classify_day ` set days) \<le> card categories"
    by (rule card_mono [rotated])
  then have le5: "card (classify_day ` set days) \<le> 5"
    by (simp add: card_categories)
  have first: "m t = List.find (\<lambda>d. classify_day d = t) days" if t: "t \<in> categories" for t
  proof (cases "List.find (\<lambda>d. classify_day d = t) days")
    case None
    then have "t \<notin> classify_day ` set days"
      by (auto simp: find_None_iff)
    moreover have "t \<notin> numbered_alias days ` {..<length days}"
      using category_not_numbered [OF t] by blast
    ultimately have "t \<notin> dom m" by (simp add: dm)
    then show ?thesis using None by (simp add: domIff)
  next
    case (Some f)
    then obtain i where i: "i < length days" "classify_day (days ! i) = t" "f = days ! i"
      "\<forall>j<i. classify_day (days ! j) \<noteq> t"
      by (auto simp: find_Some_iff)
    have "\<forall>j<i. classify_day (days ! j) \<noteq> classify_day (days ! i)"
      using i by simp
    with bare i(1) have "m (classify_day (days ! i)) = Some (days ! i)" by blast
    with i Some show ?thesis by simp
  qed
  show ?thesis
    unfolding Let_def days_def [symmetric] bm fst_conv snd_conv
    using ordered_unique_days_distinct [of df] r dm card_dom le5 nm first
    by (simp add: days_def)
qed

text \<open>
  On a plan with the days Pull Day, Push Day, a missing day, Pull Day again and Pull Day 2:
  three unique days, the aliases pull1, push1 and pull2, and the bare names pull and push.
\<close>

theorem build_alias_map_keys_witness:
  "ordered_unique_days example_plan = [S ''Pull Day'', S ''Push Day'', S ''Pull Day 2''] \<and>
   2 < length (ordered_unique_days example_plan) \<and> S ''pull'' \<in> categories \<and>
   snd (build_alias_map example_plan) =
     [(S ''pull1'', S ''Pull Day''), (S ''push1'', S ''Push Day''), (S ''pull2'', S ''Pull Day 2'')] \<and>
   card (dom (fst (build_alias_map example_plan))) = 5 \<and>
   fst (build_alias_map example_plan) (S ''pull2'') = Some (S ''Pull Day 2'') \<and>
   fst (build_alias_map example_plan) (S ''pull'') = Some (S ''Pull Day'')"
proof -
  let ?days = "[S ''Pull Day'', S ''Push Day'', S ''Pull Day 2'']"
  have days: "ordered_unique_days example_plan = ?days"
    by (simp add: example_plan_def ordered_unique_days_def S_def)
  have cls: "classify_day (S ''Pull Day'') = S ''pull''"
    "classify_day (S ''Push Day'') = S ''push''"
    "classify_day (S ''Pull Day 2'') = S ''pull''"
    by (simp_all add: classify_day_def Let_def py_lower_def S_def sublist_code(3))
  have ne: "S ''pull'' \<noteq> S ''push''" "S ''push'' \<noteq> S ''pull''"
    by (simp_all add: S_def)
  have strs: "str_nat (Suc 0) = S ''1''" "str_nat (Suc (Suc 0)) = S ''2''"
    by (simp_all add: str_nat.simps S_def)
  have na: "numbered_alias ?days 0 = S ''pull1''" "numbered_alias ?days 1 = S ''push1''"
    "numbered_alias ?days 2 = S ''pull2''"
    by (simp_all add: numbered_alias_def occurrences_def cls ne strs S_append
        numeral_2_eq_2)
  have idx: "[0..<length ?days] = [0, 1, 2]"
    by (simp add: upt_rec numeral_2_eq_2)
  have "classify_day ` set ?days = {S ''pull'', S ''push''}"
    by (auto simp: cls)
  then have cats: "card (classify_day ` set ?days) = 2"
    by (simp add: ne)
  have fnd: "List.find (\<lambda>d. classify_day d = S ''pull'') ?days = Some (S ''Pull Day'')"
    by (simp add: cls)
  have cat: "S ''pull'' \<in> categories"
    by (simp add: categories_def)
  from build_alias_map_keys [of example_plan] have
    rows: "snd (build_alias_map example_plan) =
             map (\<lambda>i. (numbered_alias ?days i, ?days ! i)) [0..<length ?days]" and
    card: "card (dom (fst (build_alias_map example_plan)))
             = length ?days + card (classify_day ` set ?days)" and
    num: "\<forall>i<length ?days. fst (build_alias_map example_plan) (numbered_alias ?days i)
             = Some (?days ! i)" and
    bare: "\<forall>t\<in>categories. fst (build_alias_map example_plan) t
             = List.find (\<lambda>d. classify_day d = t) ?days"
    unfolding Let_def days by blast+
  have r: "snd (build_alias_map example_plan) =
     [(S ''pull1'', S ''Pull Day''), (S ''push1'', S ''Push Day''), (S ''pull2'', S ''Pull Day 2'')]"
    unfolding rows idx using na by simp
  have c: "card (dom (fst (build_alias_map example_plan))) = 5"
    unfolding card cats by simp
  have "fst (build_alias_map example_plan) (numbered_alias ?days 2) = Some (?days ! 2)"
    using num by simp
  then have n2: "fst (build_alias_map example_plan) (S ''pull2'') = Some (S ''Pull Day 2'')"
    by (simp add: na)
  have b: "fst (build_alias_map example_plan) (S ''pull'') = Some (S ''Pull Day'')"
    using bare cat fnd by simp
  from days r c n2 b cat show ?thesis by simp
qed

section \<open>The message renderer\<close>

subsection \<open>The table entries and links of the exercises used below\<close>

lemma form_cues_of:
  "dict_get FORM_CUES (S ''Kettlebell Swings'') [] =
     S ''Hinge; snap glutes; don'' @ [8217] @ S ''t squat.''"
  "dict_get FORM_CUES (S ''DB Thrusters'') [] = S ''Full squat then press overhead.''"
  "dict_get FORM_CUES (S ''Jump Rope'') [] = S ''Light bounce; upright.''"
  "dict_get FORM_CUES (S ''Lat Pulldown'') [] = S ''Chest up; pull bar to upper chest; no swing.''"
  by (simp_all add: dict_get_def FORM_CUES_def S_def)

lemma prescriptions_of:
  "map_of EXERCISE_PRESCRIPTIONS (S ''Kettlebell Swings'') =
     Some \<lparr>sets = Word (S ''EMOM''), reps = S ''10 reps/min'', rest = S ''balance of min''\<rparr>"
  "map_of EXERCISE_PRESCRIPTIONS (S ''DB Thrusters'') =
     Some \<lparr>sets = Word (S ''EMOM''), reps = S ''8 reps/min'', rest = S ''balance of min''\<rparr>"
  "map_of EXERCISE_PRESCRIPTIONS (S ''Jump Rope'') =
     Some \<lparr>sets = Word (S ''EMOM''), reps = S ''20 skips/min'', rest = S ''balance of min''\<rparr>"
  "map_of EXERCISE_PRESCRIPTIONS (S ''Lat Pulldown'') =
     Some \<lparr>sets = Count 3, reps = S ''10'' @ [8211] @ S ''12'',
           rest = S ''60'' @ [8211] @ S ''90s''\<rparr>"
  by (simp_all add: EXERCISE_PRESCRIPTIONS_def S_def)

lemma links_of:
  "google_exercise_link (S ''Kettlebell Swings'') =
     S ''https://www.google.com/search?q=site%3Amusclewiki.com+Kettlebell+Swings''"
  "google_exercise_link (S ''DB Thrusters'') =
     S ''https://www.google.com/search?q=site%3Amusclewiki.com+DB+Thrusters''"
  "google_exercise_link (S ''Jump Rope'') =
     S ''https://www.google.com/search?q=site%3Amusclewiki.com+Jump+Rope''"
  "google_exercise_link (S ''Lat Pulldown'') =
     S ''https://www.google.com/search?q=site%3Amusclewiki.com+Lat+Pulldown''"
  by (simp_all add: google_exercise_link_def quote_plus_def S_def utf8_def quote_byte_def
      always_safe_def hex_digit_def)

lemma strip_names:
  "strip (S ''Kettlebell Swings'') = S ''Kettlebell Swings''"
  "strip (S ''Lat Pulldown'') = S ''Lat Pulldown''"
  by (simp_all add: strip_def rstrip_def is_space_def S_def)

lemma cardio_entries:
  "cardio_details (S ''Kettlebell Swings'') =
    S ''- *Kettlebell Swings*'' @ [NL]
    @ S ''  https://www.google.com/search?q=site%3Amusclewiki.com+Kettlebell+Swings'' @ [NL]
    @ S ''  Form Cue: Hinge; snap glutes; don'' @ [8217] @ S ''t squat.'' @ [NL]
    @ S ''  Prescription: EMOM '' @ [215] @ S '' 10 reps/min | Rest: balance of min''"
  "cardio_details (S ''DB Thrusters'') =
    S ''- *DB Thrusters*'' @ [NL]
    @ S ''  https://www.google.com/search?q=site%3Amusclewiki.com+DB+Thrusters'' @ [NL]
    @ S ''  Form Cue: Full squat then press overhead.'' @ [NL]
    @ S ''  Prescription: EMOM '' @ [215] @ S '' 8 reps/min | Rest: balance of min''"
  "cardio_details (S ''Jump Rope'') =
    S ''- *Jump Rope*'' @ [NL]
    @ S ''  https://www.google.com/search?q=site%3Amusclewiki.com+Jump+Rope'' @ [NL]
    @ S ''  Form Cue: Light bounce; upright.'' @ [NL]
    @ S ''  Prescription: EMOM '' @ [215] @ S '' 20 skips/min | Rest: balance of min''"
  by (simp_all add: cardio_details_def Let_def form_cues_of prescriptions_of links_of S_append)

lemma kettlebell_row_details:
  "row_details kettlebell_row =
    S ''- *Kettlebell Swings*'' @ [NL]
    @ S ''  https://www.google.com/search?q=site%3Amusclewiki.com+Kettlebell+Swings'' @ [NL]
    @ S ''  Primary: Glutes'' @ [NL]
    @ S ''  Form Cue: Hinge; snap glutes; don'' @ [8217] @ S ''t squat.'' @ [NL]
    @ S ''  Prescription: EMOM '' @ [215] @ S '' 10 reps/min | Rest: balance of min''"
  by (simp add: row_details_def kettlebell_row_def Let_def strip_names form_cues_of
      prescriptions_of links_of target_text_def S_append)

lemma classify_cardio_day: "classify_day (S ''Cardio Day'') = S ''cardio''"
  by (simp add: classify_day_def Let_def py_lower_def S_def sublist_code(3))

subsection \<open>Cardio days\<close>

lemma cardio_warmups_cooldowns:
  "dict_get WARMUPS (S ''cardio'') dflt = [S ''Arm Circles'', S ''Standing Quad Stretch'']"
  "dict_get COOLDOWNS (S ''cardio'') dflt =
     [S ''Child'' @ [8217] @ S ''s pose'', S ''Hamstring Stretch'']"
  by (simp_all add: dict_get_def WARMUPS_def COOLDOWNS_def S_def)

text \<open>
  C7, as the code has it. On a day classified as cardio the rendered message is the day's
  heading, the cardio warm-up block, the main-workout block, the cardio cool-down block
  and the closing line, and its main-workout block holds the three fixed entries and
  nothing else, whatever the plan holds: the whole message is the same for every plan.
  Each entry has four lines: the name, the link, the form cue and the prescription.
  There is no line of targets: that line is built from a row, and the fixed entries have
  none.
\<close>

theorem cardio_day_fixed_entries:
  assumes "classify_day day = S ''cardio''"
  shows "build_message_for_day df day =
           [128197] @ S '' *'' @ day @ S ''*'' @ [NL, NL]
           @ [128293] @ S '' *Warm-up*'' @ [NL]
           @ bullet (S ''warm up'') (S ''Arm Circles'') @ [NL]
           @ bullet (S ''warm up'') (S ''Standing Quad Stretch'') @ [NL, NL]
           @ [127947, 65039] @ S '' *Main Workout*'' @ [NL]
           @ S ''- *Kettlebell Swings*'' @ [NL]
           @ S ''  https://www.google.com/search?q=site%3Amusclewiki.com+Kettlebell+Swings'' @ [NL]
           @ S ''  Form Cue: Hinge; snap glutes; don'' @ [8217] @ S ''t squat.'' @ [NL]
           @ S ''  Prescription: EMOM '' @ [215] @ S '' 10 reps/min | Rest: balance of min'' @ [NL]
           @ S ''- *DB Thrusters*'' @ [NL]
           @ S ''  https://www.google.com/search?q=site%3Amusclewiki.com+DB+Thrusters'' @ [NL]
           @ S ''  Form Cue: Full squat then press overhead.'' @ [NL]
           @ S ''  Prescription: EMOM '' @ [215] @ S '' 8 reps/min | Rest: balance of min'' @ [NL]
           @ S ''- *Jump Rope*'' @ [NL]
           @ S ''  https://www.google.com/search?q=site%3Amusclewiki.com+Jump+Rope'' @ [NL]
           @ S ''  Form Cue: Light bounce; upright.'' @ [NL]
           @ S ''  Prescription: EMOM '' @ [215] @ S '' 20 skips/min | Rest: balance of min''
           @ [NL, NL]
           @ [129482] @ S '' *Cool-down*'' @ [NL]
           @ bullet (S ''stretch'') (S ''Child'' @ [8217] @ S ''s pose'') @ [NL]
           @ bullet (S ''stretch'') (S ''Hamstring Stretch'') @ [NL, NL]
           @ S ''Reply *DONE* when finished '' @ [128170] \<and>
         main_lines df day =
           [S ''- *Kettlebell Swings*'' @ [NL]
            @ S ''  https://www.google.com/search?q=site%3Amusclewiki.com+Kettlebell+Swings'' @ [NL]
            @ S ''  Form Cue: Hinge; snap glutes; don'' @ [8217] @ S ''t squat.'' @ [NL]
            @ S ''  Prescription: EMOM '' @ [215] @ S '' 10 reps/min | Rest: balance of min'',
            S ''- *DB Thrusters*'' @ [NL]
            @ S ''  https://www.google.com/search?q=site%3Amusclewiki.com+DB+Thrusters'' @ [NL]
            @ S ''  Form Cue: Full squat then press overhead.'' @ [NL]
            @ S ''  Prescription: EMOM '' @ [215] @ S '' 8 reps/min | Rest: balance of min'',
            S ''- *Jump Rope*'' @ [NL]
            @ S ''  https://www.google.com/search?q=site%3Amusclewiki.com+Jump+Rope'' @ [NL]
            @ S ''  Form Cue: Light bounce; upright.'' @ [NL]
            @ S ''  Prescription: EMOM '' @ [215] @ S '' 20 skips/min | Rest: balance of min''] \<and>
         build_message_for_day df day = build_message_for_day df' day"
proof -
  have m: "main_lines d day =
      map cardio_details [S ''Kettlebell Swings'', S ''DB Thrusters'', S ''Jump Rope'']" for d
    using assms by (simp add: main_lines_def Let_def)
  have same: "build_message_for_day df day = build_message_for_day df' day"
    by (simp only: build_message_for_day_def m)
  have lines: "main_lines df day =
           [S ''- *Kettlebell Swings*'' @ [NL]
            @ S ''  https://www.google.com/search?q=site%3Amusclewiki.com+Kettlebell+Swings'' @ [NL]
            @ S ''  Form Cue: Hinge; snap glutes; don'' @ [8217] @ S ''t squat.'' @ [NL]
            @ S ''  Prescription: EMOM '' @ [215] @ S '' 10 reps/min | Rest: balance of min'',
            S ''- *DB Thrusters*'' @ [NL]
            @ S ''  https://www.google.com/search?q=site%3Amusclewiki.com+DB+Thrusters'' @ [NL]
            @ S ''  Form Cue: Full squat then press overhead.'' @ [NL]
            @ S ''  Prescription: EMOM '' @ [215] @ S '' 8 reps/min | Rest: balance of min'',
            S ''- *Jump Rope*'' @ [NL]
            @ S ''  https://www.google.com/search?q=site%3Amusclewiki.com+Jump+Rope'' @ [NL]
            @ S ''  Form Cue: Light bounce; upright.'' @ [NL]
            @ S ''  Prescription: EMOM '' @ [215] @ S '' 20 skips/min | Rest: balance of min'']"
    by (simp add: m cardio_entries)
  have message: "build_message_for_day df day =
           [128197] @ S '' *'' @ day @ S ''*'' @ [NL, NL]
           @ [128293] @ S '' *Warm-up*'' @ [NL]
           @ bullet (S ''warm up'') (S ''Arm Circles'') @ [NL]
           @ bullet (S ''warm up'') (S ''Standing Quad Stretch'') @ [NL, NL]
           @ [127947, 65039] @ S '' *Main Workout*'' @ [NL]
           @ S ''- *Kettlebell Swings*'' @ [NL]
           @ S ''  https://www.google.com/search?q=site%3Amusclewiki.com+Kettlebell+Swings'' @ [NL]
           @ S ''  Form Cue: Hinge; snap glutes; don'' @ [8217] @ S ''t squat.'' @ [NL]
           @ S ''  Prescription: EMOM '' @ [215] @ S '' 10 reps/min | Rest: balance of min'' @ [NL]
           @ S ''- *DB Thrusters*'' @ [NL]
           @ S ''  https://www.google.com/search?q=site%3Amusclewiki.com+DB+Thrusters'' @ [NL]
           @ S ''  Form Cue: Full squat then press overhead.'' @ [NL]
           @ S ''  Prescription: EMOM '' @ [215] @ S '' 8 reps/min | Rest: balance of min'' @ [NL]
           @ S ''- *Jump Rope*'' @ [NL]
           @ S ''  https://www.google.com/search?q=site%3Amusclewiki.com+Jump+Rope'' @ [NL]
           @ S ''  Form Cue: Light bounce; upright.'' @ [NL]
           @ S ''  Prescription: EMOM '' @ [215] @ S '' 20 skips/min | Rest: balance of min''
           @ [NL, NL]
           @ [129482] @ S '' *Cool-down*'' @ [NL]
           @ bullet (S ''stretch'') (S ''Child'' @ [8217] @ S ''s pose'') @ [NL]
           @ bullet (S ''stretch'') (S ''Hamstring Stretch'') @ [NL, NL]
           @ S ''Reply *DONE* when finished '' @ [128170]"
    by (simp add: build_message_for_day_def Let_def assms cardio_warmups_cooldowns lines)
  from message lines same show ?thesis
    by (intro conjI)
qed

text \<open>
  On the day Cardio Day, with a plan that holds a row for it: the message is the one of the
  empty plan, and its main-workout block, from the heading to the blank line before the
  cool-down, is the three fixed entries.
\<close>

theorem cardio_day_fixed_entries_witness:
  "classify_day (S ''Cardio Day'') = S ''cardio'' \<and>
   length (main_lines [kettlebell_row] (S ''Cardio Day'')) = 3 \<and>
   build_message_for_day [kettlebell_row] (S ''Cardio Day'')
     = build_message_for_day [] (S ''Cardio Day'') \<and>
   sublist
     ([NL, NL] @ [127947, 65039] @ S '' *Main Workout*'' @ [NL]
      @ S ''- *Kettlebell Swings*'' @ [NL]
      @ S ''  https://www.google.com/search?q=site%3Amusclewiki.com+Kettlebell+Swings'' @ [NL]
      @ S ''  Form Cue: Hinge; snap glutes; don'' @ [8217] @ S ''t squat.'' @ [NL]
      @ S ''  Prescription: EMOM '' @ [215] @ S '' 10 reps/min | Rest: balance of min'' @ [NL]
      @ S ''- *DB Thrusters*'' @ [NL]
      @ S ''  https://www.google.com/search?q=site%3Amusclewiki.com+DB+Thrusters'' @ [NL]
      @ S ''  Form Cue: Full squat then press overhead.'' @ [NL]
      @ S ''  Prescription: EMOM '' @ [215] @ S '' 8 reps/min | Rest: balance of min'' @ [NL]
      @ S ''- *Jump Rope*'' @ [NL]
      @ S ''  https://www.google.com/search?q=site%3Amusclewiki.com+Jump+Rope'' @ [NL]
      @ S ''  Form Cue: Light bounce; upright.'' @ [NL]
      @ S ''  Prescription: EMOM '' @ [215] @ S '' 20 skips/min | Rest: balance of min''
      @ [NL, NL] @ [129482] @ S '' *Cool-down*'')
     (build_message_for_day [kettlebell_row] (S ''Cardio Day''))"
proof -
  note fixed = cardio_day_fixed_entries [OF classify_cardio_day, of "[kettlebell_row]" "[]"]
  from fixed have len: "length (main_lines [kettlebell_row] (S ''Cardio Day'')) = 3"
    by simp
  from fixed have same: "build_message_for_day [kettlebell_row] (S ''Cardio Day'')
      = build_message_for_day [] (S ''Cardio Day'')"
    by blast
  from fixed have message: "build_message_for_day [kettlebell_row] (S ''Cardio Day'') =
      ([128197] @ S '' *'' @ S ''Cardio Day'' @ S ''*'' @ [NL, NL]
       @ [128293] @ S '' *Warm-up*'' @ [NL]
       @ bullet (S ''warm up'') (S ''Arm Circles'') @ [NL]
       @ bullet (S ''warm up'') (S ''Standing Quad Stretch''))
      @ ([NL, NL] @ [127947, 65039] @ S '' *Main Workout*'' @ [NL]
      @ S ''- *Kettlebell Swings*'' @ [NL]
      @ S ''  https://www.google.com/search?q=site%3Amusclewiki.com+Kettlebell+Swings'' @ [NL]
      @ S ''  Form Cue: Hinge; snap glutes; don'' @ [8217] @ S ''t squat.'' @ [NL]
      @ S ''  Prescription: EMOM '' @ [215] @ S '' 10 reps/min | Rest: balance of min'' @ [NL]
      @ S ''- *DB Thrusters*'' @ [NL]
      @ S ''  https://www.google.com/search?q=site%3Amusclewiki.com+DB+Thrusters'' @ [NL]
      @ S ''  Form Cue: Full squat then press overhead.'' @ [NL]
      @ S ''  Prescription: EMOM '' @ [215] @ S '' 8 reps/min | Rest: balance of min'' @ [NL]
      @ S ''- *Jump Rope*'' @ [NL]
      @ S ''  https://www.google.com/search?q=site%3Amusclewiki.com+Jump+Rope'' @ [NL]
      @ S ''  Form Cue: Light bounce; upright.'' @ [NL]
      @ S ''  Prescription: EMOM '' @ [215] @ S '' 20 skips/min | Rest: balance of min''
      @ [NL, NL] @ [129482] @ S '' *Cool-down*'')
      @ ([NL]
       @ bullet (S ''stretch'') (S ''Child'' @ [8217] @ S ''s pose'') @ [NL]
       @ bullet (S ''stretch'') (S ''Hamstring Stretch'') @ [NL, NL]
       @ S ''Reply *DONE* when finished '' @ [128170])"
    by simp
  have block: "sublist
     ([NL, NL] @ [127947, 65039] @ S '' *Main Workout*'' @ [NL]
      @ S ''- *Kettlebell Swings*'' @ [NL]
      @ S ''  https://www.google.com/search?q=site%3Amusclewiki.com+Kettlebell+Swings'' @ [NL]
      @ S ''  Form Cue: Hinge; snap glutes; don'' @ [8217] @ S ''t squat.'' @ [NL]
      @ S ''  Prescription: EMOM '' @ [215] @ S '' 10 reps/min | Rest: balance of min'' @ [NL]
      @ S ''- *DB Thrusters*'' @ [NL]
      @ S ''  https://www.google.com/search?q=site%3Amusclewiki.com+DB+Thrusters'' @ [NL]
      @ S ''  Form Cue: Full squat then press overhead.'' @ [NL]
      @ S ''  Prescription: EMOM '' @ [215] @ S '' 8 reps/min | Rest: balance of min'' @ [NL]
      @ S ''- *Jump Rope*'' @ [NL]
      @ S ''  https://www.google.com/search?q=site%3Amusclewiki.com+Jump+Rope'' @ [NL]
      @ S ''  Form Cue: Light bounce; upright.'' @ [NL]
      @ S ''  Prescription: EMOM '' @ [215] @ S '' 20 skips/min | Rest: balance of min''
      @ [NL, NL] @ [129482] @ S '' *Cool-down*'')
     (build_message_for_day [kettlebell_row] (S ''Cardio Day''))"
    unfolding message by (rule sublist_appendI)
  from classify_cardio_day len same block show ?thesis
    by (intro conjI)
qed

text \<open>
  A row for Kettlebell Swings renders with five lines, the third one its targets; the entry
  for Kettlebell Swings on a cardio day has four and no such line.
\<close>

theorem cardio_entry_lacks_primary_line:
  "row_details kettlebell_row =
     S ''- *Kettlebell Swings*'' @ [NL]
     @ S ''  https://www.google.com/search?q=site%3Amusclewiki.com+Kettlebell+Swings'' @ [NL]
     @ S ''  Primary: Glutes'' @ [NL]
     @ S ''  Form Cue: Hinge; snap glutes; don'' @ [8217] @ S ''t squat.'' @ [NL]
     @ S ''  Prescription: EMOM '' @ [215] @ S '' 10 reps/min | Rest: balance of min'' \<and>
   main_lines [kettlebell_row] (S ''Cardio Day'') ! 0 =
     S ''- *Kettlebell Swings*'' @ [NL]
     @ S ''  https://www.google.com/search?q=site%3Amusclewiki.com+Kettlebell+Swings'' @ [NL]
     @ S ''  Form Cue: Hinge; snap glutes; don'' @ [8217] @ S ''t squat.'' @ [NL]
     @ S ''  Prescription: EMOM '' @ [215] @ S '' 10 reps/min | Rest: balance of min'' \<and>
   length (py_split [NL] (row_details kettlebell_row)) = 5 \<and>
   length (py_split [NL] (main_lines [kettlebell_row] (S ''Cardio Day'') ! 0)) = 4 \<and>
   sublist (S ''Primary:'') (row_details kettlebell_row) \<and>
   \<not> sublist (S ''Primary:'') (main_lines [kettlebell_row] (S ''Cardio Day'') ! 0)"
proof -
  have e: "main_lines [kettlebell_row] (S ''Cardio Day'') ! 0 =
      cardio_details (S ''Kettlebell Swings'')"
    by (simp add: main_lines_def Let_def classify_cardio_day)
  have a: "length (py_split [NL] (row_details kettlebell_row)) = 5"
    unfolding kettlebell_row_details by (simp add: py_split_def S_def NL_def)
  have b: "length (py_split [NL] (cardio_details (S ''Kettlebell Swings''))) = 4"
    unfolding cardio_entries by (simp add: py_split_def S_def NL_def)
  have c: "sublist (S ''Primary:'') (row_details kettlebell_row)"
    unfolding kettlebell_row_details by (simp add: S_def NL_def sublist_code(3))
  have d: "\<not> sublist (S ''Primary:'') (cardio_details (S ''Kettlebell Swings''))"
    unfolding cardio_entries by (simp add: S_def NL_def sublist_code(3))
  show ?thesis
    unfolding e using a b c d by (simp add: kettlebell_row_details cardio_entries)
qed

subsection \<open>Empty target cells\<close>

text \<open>
  C8 at a row whose Secondary and Tertiary cells are empty: pandas reads an empty cell as
  \<open>NaN\<close>, \<open>str\<close> of it is the non-empty text \<open>nan\<close>, and both fragments are rendered.
\<close>

theorem row_details_empty_cells_render_nan:
  "row_details pulldown_row =
     S ''- *Lat Pulldown*'' @ [NL]
     @ S ''  https://www.google.com/search?q=site%3Amusclewiki.com+Lat+Pulldown'' @ [NL]
     @ S ''  Primary: Lats | Secondary: nan | Tertiary: nan'' @ [NL]
     @ S ''  Form Cue: Chest up; pull bar to upper chest; no swing.'' @ [NL]
     @ S ''  Prescription: 3 '' @ [215] @ S '' 10'' @ [8211] @ S ''12 | Rest: 60'' @ [8211]
     @ S ''90s''"
proof -
  have "target_text (Some NaN) = S ''nan''" "str_nat 3 = S ''3''"
    by (simp_all add: target_text_def S_def str_nat.simps)
  then show ?thesis
    by (simp add: row_details_def pulldown_row_def Let_def strip_names form_cues_of
        prescriptions_of links_of S_append S_eq_Nil)
qed

section \<open>The day selector\<close>

text \<open>
  C4. For a non-empty list of days: without a state file, or with \<open>rest_today\<close> false, the
  day at the weekday's index modulo the number of days is returned and the file is left as
  it is. With \<open>rest_today\<close> true the persisted \<open>last_day\<close> is returned and the file is
  rewritten with \<open>rest_today\<close> false, so that the next run, on any weekday, selects by
  index again.
\<close>

theorem pick_day_for_today_selection:
  assumes "days \<noteq> []"
  shows "((file = None \<or> (\<exists>s. file = Some s \<and> \<not> rest_today s)) \<longrightarrow>
            pick_day_for_today days weekday file
              = (file, Inr (days ! (weekday mod length days)))) \<and>
         (\<forall>s d. file = Some s \<and> rest_today s \<and> last_day s = Some d \<longrightarrow>
            pick_day_for_today days weekday file = (Some (s\<lparr>rest_today := False\<rparr>), Inr d) \<and>
            pick_day_for_today days weekday' (Some (s\<lparr>rest_today := False\<rparr>))
              = (Some (s\<lparr>rest_today := False\<rparr>), Inr (days ! (weekday' mod length days)))) \<and>
         days ! (weekday mod length days) \<in> set days"
  using assms by (auto simp: pick_day_for_today_def Let_def)

text \<open>
  The specification's scenario: five days and weekday index 2 select the third day; with the
  state \<open>{last_day: Push Day, rest_today: true}\<close> the run returns Push Day and leaves
  \<open>rest_today\<close> false, and the run after that selects by index.
\<close>

theorem pick_day_for_today_selection_witness:
  "five_days \<noteq> [] \<and>
   pick_day_for_today five_days 2 None = (None, Inr (S ''Leg Day'')) \<and>
   pick_day_for_today five_days 2 (Some \<lparr>last_day = Some (S ''Push Day''), rest_today = True\<rparr>)
     = (Some \<lparr>last_day = Some (S ''Push Day''), rest_today = False\<rparr>, Inr (S ''Push Day'')) \<and>
   pick_day_for_today five_days 3 (Some \<lparr>last_day = Some (S ''Push Day''), rest_today = False\<rparr>)
     = (Some \<lparr>last_day = Some (S ''Push Day''), rest_today = False\<rparr>, Inr (S ''Cardio Day''))"
proof -
  have ne: "five_days \<noteq> []"
    by (simp add: five_days_def)
  have len: "length five_days = 5"
    by (simp add: five_days_def)
  have at: "five_days ! (2 mod length five_days) = S ''Leg Day''"
    "five_days ! (3 mod length five_days) = S ''Cardio Day''"
    unfolding len by (simp_all add: five_days_def)
  let ?s = "\<lparr>last_day = Some (S ''Push Day''), rest_today = True\<rparr>"
  from pick_day_for_today_selection [OF ne, of None 2]
  have a: "pick_day_for_today five_days 2 None = (None, Inr (S ''Leg Day''))"
    by (simp add: at)
  from pick_day_for_today_selection [OF ne, of "Some ?s" 2 3]
  have b: "pick_day_for_today five_days 2 (Some ?s) = (Some (?s\<lparr>rest_today := False\<rparr>), Inr (S ''Push Day''))"
    and c: "pick_day_for_today five_days 3 (Some (?s\<lparr>rest_today := False\<rparr>))
        = (Some (?s\<lparr>rest_today := False\<rparr>), Inr (five_days ! (3 mod length five_days)))"
    by simp_all
  from ne a b c show ?thesis
    by (simp add: at)
qed

text \<open>
  C10. On the empty list the selector raises \<open>ZeroDivisionError\<close>, before it looks at the
  state file, and it raises it on no other list. A plan whose Day cells are all missing has
  no unique day, and the daily job on a plan without unique days ends in that error with
  nothing sent and the state file untouched.
\<close>

theorem pick_day_for_today_empty:
  "pick_day_for_today [] weekday file = (file, Inl ZeroDivisionError) \<and>
   ((\<forall>r\<in>set df. Day r = NaN) \<longrightarrow> ordered_unique_days df = []) \<and>
   (ordered_unique_days df = [] \<longrightarrow>
      job_send_today df max_chars weekday env api file = (file, [], Inl ZeroDivisionError)) \<and>
   (snd (pick_day_for_today days weekday file) = Inl ZeroDivisionError \<longleftrightarrow> days = [])"
proof -
  have a: "pick_day_for_today [] weekday file = (file, Inl ZeroDivisionError)"
    by (simp add: pick_day_for_today_def)
  have "dropna (map Day df) = []" if "\<forall>r\<in>set df. Day r = NaN"
    using that by (induction df) auto
  then have b: "(\<forall>r\<in>set df. Day r = NaN) \<longrightarrow> ordered_unique_days df = []"
    by (simp add: ordered_unique_days_def)
  have c: "ordered_unique_days df = [] \<longrightarrow>
      job_send_today df max_chars weekday env api file = (file, [], Inl ZeroDivisionError)"
    by (simp add: job_send_today_def a)
  have d: "snd (pick_day_for_today days weekday file) = Inl ZeroDivisionError \<longleftrightarrow> days = []"
    by (auto simp: pick_day_for_today_def Let_def split: option.splits)
  from a b c d show ?thesis by blast
qed

theorem pick_day_for_today_empty_witness:
  "Day (kettlebell_row\<lparr>Day := NaN\<rparr>) = NaN \<and> Day (pulldown_row\<lparr>Day := NaN\<rparr>) = NaN \<and>
   ordered_unique_days [kettlebell_row\<lparr>Day := NaN\<rparr>, pulldown_row\<lparr>Day := NaN\<rparr>] = [] \<and>
   job_send_today [kettlebell_row\<lparr>Day := NaN\<rparr>, pulldown_row\<lparr>Day := NaN\<rparr>] 1500 2
       no_recipients_env accepting_provider None
     = (None, [], Inl ZeroDivisionError)"
proof -
  let ?df = "[kettlebell_row\<lparr>Day := NaN\<rparr>, pulldown_row\<lparr>Day := NaN\<rparr>]"
  have h: "\<forall>r\<in>set ?df. Day r = NaN"
    by simp
  from pick_day_for_today_empty [of 2 None ?df 1500 no_recipients_env accepting_provider]
  have e: "ordered_unique_days ?df = []"
    and j: "ordered_unique_days ?df = [] \<longrightarrow>
        job_send_today ?df 1500 2 no_recipients_env accepting_provider None
          = (None, [], Inl ZeroDivisionError)"
    using h by blast+
  from e j show ?thesis by simp
qed

section \<open>The delivery client\<close>

lemma send_all_no_runtime_error: "snd (send_all api log ms) \<noteq> Inl (RuntimeError msg)"
  by (induction ms arbitrary: log) (auto split: option.splits)

text \<open>
  C9. The \<open>RuntimeError\<close> for missing credentials is raised exactly when the account
  identifier or the auth token is unset or empty, or no recipient is left after the
  recipient list is split at commas and stripped; and then nothing has been submitted to
  the provider. (A failing send raises the provider's exception, not this one.)
\<close>

theorem send_whatsapp_parts_auth_error:
  "((\<exists>msg. snd (send_whatsapp_parts env api parts) = Inl (RuntimeError msg)) \<longleftrightarrow>
      env (S ''TWILIO_ACCOUNT_SID'') \<in> {None, Some []} \<or>
      env (S ''TWILIO_AUTH_TOKEN'') \<in> {None, Some []} \<or>
      to_list_of env = []) \<and>
   ((\<exists>msg. snd (send_whatsapp_parts env api parts) = Inl (RuntimeError msg)) \<longrightarrow>
      fst (send_whatsapp_parts env api parts) = []) \<and>
   (to_list_of env = [] \<longleftrightarrow>
      (\<forall>x\<in>set (py_split (S '','')
                 (case env (S ''WHATSAPP_TO_LIST'') of None \<Rightarrow> [] | Some v \<Rightarrow> v)).
         strip x = []))"
proof -
  let ?bad = "env (S ''TWILIO_ACCOUNT_SID'') \<in> {None, Some []} \<or>
      env (S ''TWILIO_AUTH_TOKEN'') \<in> {None, Some []} \<or> to_list_of env = []"
  have bad: "send_whatsapp_parts env api parts
      = ([], Inl (RuntimeError (S ''Missing Twilio creds in .env'')))" if ?bad
    using that by (auto simp: send_whatsapp_parts_def Let_def split: option.splits)
  have good: "snd (send_whatsapp_parts env api parts) \<noteq> Inl (RuntimeError msg)"
    if "\<not> ?bad" for msg
    using that send_all_no_runtime_error
    by (auto simp: send_whatsapp_parts_def Let_def split: option.splits)
  have tl: "to_list_of env = [] \<longleftrightarrow>
      (\<forall>x\<in>set (py_split (S '','')
                 (case env (S ''WHATSAPP_TO_LIST'') of None \<Rightarrow> [] | Some v \<Rightarrow> v)).
         strip x = [])"
    by (simp add: to_list_of_def filter_empty_conv)
  show ?thesis
    using bad good tl by (cases ?bad) auto
qed

text \<open>
  An environment with both credentials and the recipient list \<open>" , "\<close>: no recipient is
  left, the error is raised and nothing is submitted.
\<close>

theorem send_whatsapp_parts_auth_error_witness:
  "py_split (S '','') (S '' , '') = [S '' '', S '' ''] \<and>
   to_list_of no_recipients_env = [] \<and>
   (\<exists>msg. snd (send_whatsapp_parts no_recipients_env accepting_provider [S ''hello''])
            = Inl (RuntimeError msg)) \<and>
   fst (send_whatsapp_parts no_recipients_env accepting_provider [S ''hello'']) = []"
proof -
  have sp: "py_split (S '','') (S '' , '') = [S '' '', S '' '']"
    by (simp add: py_split_def S_def)
  have wl: "no_recipients_env (S ''WHATSAPP_TO_LIST'') = Some (S '' , '')"
    by (simp add: no_recipients_env_def S_def)
  have st: "strip (S '' '') = []"
    by (simp add: strip_def rstrip_def is_space_def S_def)
  have h: "\<forall>x\<in>set (py_split (S '','')
                 (case no_recipients_env (S ''WHATSAPP_TO_LIST'') of None \<Rightarrow> [] | Some v \<Rightarrow> v)).
         strip x = []"
    by (simp add: wl sp st)
  from send_whatsapp_parts_auth_error [of no_recipients_env accepting_provider "[S ''hello'']"] h
  have "to_list_of no_recipients_env = []"
    and "\<exists>msg. snd (send_whatsapp_parts no_recipients_env accepting_provider [S ''hello''])
            = Inl (RuntimeError msg)"
    and "fst (send_whatsapp_parts no_recipients_env accepting_provider [S ''hello'']) = []"
    by blast+
  with sp show ?thesis by blast
qed

lemma send_all_accepted:
  "\<forall>log m. api log m \<noteq> None \<Longrightarrow> send_all api log ms = (log @ ms, Inr ())"
proof (induction ms arbitrary: log)
  case Nil
  show ?case by simp
next
  case (Cons m ms)
  then obtain sid where "api log m = Some sid" by blast
  with Cons show ?case by simp
qed

text \<open>
  With both credentials, at least one recipient and a provider that accepts every request,
  every part is submitted to every recipient: recipient by recipient in the order of the
  list, and for each recipient the parts in their order.
\<close>

theorem send_whatsapp_parts_order:
  assumes "env (S ''TWILIO_ACCOUNT_SID'') = Some sid" "sid \<noteq> []"
    and "env (S ''TWILIO_AUTH_TOKEN'') = Some tok" "tok \<noteq> []"
    and "to_list_of env \<noteq> []"
    and "\<forall>log m. api log m \<noteq> None"
  shows "send_whatsapp_parts env api parts =
           (concat (map (\<lambda>t. map (\<lambda>part.
              \<lparr>account_sid = sid, auth_token = tok,
               msg_from = (case env (S ''TWILIO_WHATSAPP_FROM'') of
                          None \<Rightarrow> S ''whatsapp:+14155238886'' | Some v \<Rightarrow> v),
               msg_to = t, msg_body = part\<rparr>) parts) (to_list_of env)),
            Inr ())"
  using assms by (simp add: send_whatsapp_parts_def Let_def send_all_accepted)

theorem send_whatsapp_parts_order_witness:
  "to_list_of two_recipients_env = [S ''+1'', S ''+2''] \<and>
   map (\<lambda>m. (msg_to m, msg_body m))
     (fst (send_whatsapp_parts two_recipients_env accepting_provider [S ''one'', S ''two'']))
     = [(S ''+1'', S ''one''), (S ''+1'', S ''two''), (S ''+2'', S ''one''), (S ''+2'', S ''two'')] \<and>
   snd (send_whatsapp_parts two_recipients_env accepting_provider [S ''one'', S ''two'']) = Inr ()"
proof -
  have sp: "py_split (S '','') (S ''+1, +2'') = [S ''+1'', S '' +2'']"
    by (simp add: py_split_def S_def)
  have st: "strip (S ''+1'') = S ''+1''" "strip (S '' +2'') = S ''+2''"
    by (simp_all add: strip_def rstrip_def is_space_def S_def)
  have e: "two_recipients_env (S ''TWILIO_ACCOUNT_SID'') = Some (S ''AC1'')"
    "two_recipients_env (S ''TWILIO_AUTH_TOKEN'') = Some (S ''secret'')"
    "two_recipients_env (S ''WHATSAPP_TO_LIST'') = Some (S ''+1, +2'')"
    "two_recipients_env (S ''TWILIO_WHATSAPP_FROM'') = None"
    by (simp_all add: two_recipients_env_def S_def)
  have tl: "to_list_of two_recipients_env = [S ''+1'', S ''+2'']"
    by (simp add: to_list_of_def e sp st S_eq_Nil)
  have acc: "\<forall>log m. accepting_provider log m \<noteq> None"
    by (simp add: accepting_provider_def)
  have ne: "S ''AC1'' \<noteq> []" "S ''secret'' \<noteq> []" "to_list_of two_recipients_env \<noteq> []"
    by (simp_all add: S_eq_Nil tl)
  from send_whatsapp_parts_order [OF e(1) ne(1) e(2) ne(2) ne(3) acc, of "[S ''one'', S ''two'']"]
  show ?thesis
    by (simp add: tl e)
qed

end
